theory Spec2Isabelle
  imports Complex_Main "HOL-Library.Product_Lexorder" "HOL-Library.Sublist" "HOL-Library.Multiset"
begin

section \<open>Python strings\<close>

text \<open>
  A Python \<open>str\<close> is a sequence of Unicode code points, so it is modelled as a list of
  natural numbers. \<open>asc\<close> embeds an ASCII literal. The whitespace class is the one of
  \<open>str.isspace\<close> (used by \<open>str.strip\<close>, \<open>int\<close> and the regular expression class \<open>\s\<close>);
  the decimal digits are the Unicode category Nd (used by \<open>int\<close> and \<open>\d\<close>), which comes
  in blocks of ten consecutive code points with the values 0 to 9, listed by their first
  code point (Unicode 14, the table of CPython 3.11).
\<close>

type_synonym pystr = "nat list"

definition asc :: "string \<Rightarrow> pystr" where
  "asc s = map of_char s"

definition py_isspace :: "nat \<Rightarrow> bool" where
  "py_isspace c \<longleftrightarrow>
     (9 \<le> c \<and> c \<le> 13) \<or> (28 \<le> c \<and> c \<le> 32) \<or> c = 133 \<or> c = 160 \<or> c = 5760 \<or>
     (8192 \<le> c \<and> c \<le> 8202) \<or> c = 8232 \<or> c = 8233 \<or> c = 8239 \<or> c = 8287 \<or> c = 12288"

definition py_strip :: "pystr \<Rightarrow> pystr" where
  "py_strip s = rev (dropWhile py_isspace (rev (dropWhile py_isspace s)))"

definition nd_blocks :: "nat list" where
  "nd_blocks =
     [48, 1632, 1776, 1984, 2406, 2534, 2662, 2790, 2918, 3046, 3174, 3302, 3430, 3558,
      3664, 3792, 3872, 4160, 4240, 6112, 6160, 6470, 6608, 6784, 6800, 6992, 7088, 7232,
      7248, 42528, 43216, 43264, 43472, 43504, 43600, 44016, 65296, 66720, 68912, 69734,
      69872, 69942, 70096, 70384, 70736, 70864, 71248, 71360, 71472, 71904, 72016, 72784,
      73040, 73120, 92768, 92864, 93008, 120782, 120792, 120802, 120812, 120822, 123200,
      123632, 125264, 130032]"

definition decimal_value :: "nat \<Rightarrow> nat option" where
  "decimal_value c =
     (case find (\<lambda>b. b \<le> c \<and> c < b + 10) nd_blocks of
        None \<Rightarrow> None
      | Some b \<Rightarrow> Some (c - b))"

text \<open>
  \<open>int(s)\<close> on a string, base ten: surrounding whitespace is dropped, an optional sign
  follows, then digits, where a single underscore may stand between two digits. Anything
  else raises \<open>ValueError\<close>, which is \<open>None\<close> here. \<open>int_digits prev acc\<close> reads the digits;
  \<open>prev\<close> says whether the character before was a digit. (The interpreter's configurable cap
  on the number of digits of such a literal is not part of the model.)
\<close>

fun int_digits :: "bool \<Rightarrow> nat \<Rightarrow> pystr \<Rightarrow> nat option" where
  "int_digits prev acc [] = (if prev then Some acc else None)"
| "int_digits prev acc (c # cs) =
     (if c = 95 then (if prev then int_digits False acc cs else None)
      else (case decimal_value c of
              None \<Rightarrow> None
            | Some d \<Rightarrow> int_digits True (acc * 10 + d) cs))"

definition py_int :: "pystr \<Rightarrow> int option" where
  "py_int s =
     (case py_strip s of
        [] \<Rightarrow> None
      | c # cs \<Rightarrow>
          if c = 43 then map_option int (int_digits False 0 cs)
          else if c = 45 then map_option (\<lambda>n. - int n) (int_digits False 0 cs)
          else map_option int (int_digits False 0 (c # cs)))"

text \<open>\<open>s.split(sep)\<close> for a separator of one character: always at least one part.\<close>

fun py_split :: "nat \<Rightarrow> pystr \<Rightarrow> pystr list" where
  "py_split sep [] = [[]]"
| "py_split sep (c # cs) =
     (if c = sep then [] # py_split sep cs
      else (case py_split sep cs of
              [] \<Rightarrow> [[c]]
            | p # ps \<Rightarrow> (c # p) # ps))"

section \<open>Search results (searchers/base\_searcher.py)\<close>

text \<open>
  The dataclass \<open>SearchResult\<close>. The field \<open>text\<close> of the source is \<open>chunk_text\<close> here.
  Scores are Python floats; only their order is used by the code below, so they are
  modelled as reals (the order of the finite floats, and negation, are those of the
  reals). The utilities also accept raw index hits (dictionaries with the same fields
  under \<open>_source\<close>); only the object form is modelled.
\<close>

record SearchResult =
  global_id :: pystr
  chunk_id :: int
  source_file :: pystr
  page_num :: pystr
  chunk_text :: pystr
  score :: real
  fund_code :: pystr
  date :: pystr
  short_name :: pystr
  from_methods :: "pystr list"

section \<open>Page labels (utils/page\_utils.py)\<close>

text \<open>
  \<open>PageUtils.extract_page_numbers_from_string\<close>: the label is split at \<open>-\<close> and every part
  that \<open>int\<close> accepts is kept, in order; a part that raises is skipped.
\<close>

fun collect_pages :: "pystr list \<Rightarrow> int list" where
  "collect_pages [] = []"
| "collect_pages (part # parts) =
     (case py_int (py_strip part) of
        None \<Rightarrow> collect_pages parts
      | Some page \<Rightarrow> page # collect_pages parts)"

definition extract_page_numbers_from_string :: "pystr \<Rightarrow> int list" where
  "extract_page_numbers_from_string page_num_str =
     (if page_num_str = [] then [] else collect_pages (py_split 45 page_num_str))"

section \<open>Chunk utilities (utils/chunk\_utils.py)\<close>

text \<open>
  The comparisons of the two filter loops against an optional bound:
  \<open>b is not None and x < b\<close>, and \<open>b is not None and x > b\<close>.
\<close>

definition lt_bound :: "int \<Rightarrow> int option \<Rightarrow> bool" where
  "lt_bound x b = (case b of None \<Rightarrow> False | Some v \<Rightarrow> x < v)"

definition gt_bound :: "int \<Rightarrow> int option \<Rightarrow> bool" where
  "gt_bound x b = (case b of None \<Rightarrow> False | Some v \<Rightarrow> x > v)"

text \<open>The first loop of \<open>apply_range_limitations\<close>: the chunk\_id pass.\<close>

fun chunk_id_pass :: "int option \<Rightarrow> int option \<Rightarrow> SearchResult list \<Rightarrow> SearchResult list" where
  "chunk_id_pass start_chunk_id end_chunk_id [] = []"
| "chunk_id_pass start_chunk_id end_chunk_id (chunk # rest) =
     (if lt_bound (chunk_id chunk) start_chunk_id then chunk_id_pass start_chunk_id end_chunk_id rest
      else if gt_bound (chunk_id chunk) end_chunk_id then chunk_id_pass start_chunk_id end_chunk_id rest
      else chunk # chunk_id_pass start_chunk_id end_chunk_id rest)"

text \<open>
  The second loop: the page pass. A chunk whose label gives no page number skips both
  tests and is appended.
\<close>

fun page_pass :: "int option \<Rightarrow> int option \<Rightarrow> SearchResult list \<Rightarrow> SearchResult list" where
  "page_pass start_page end_page [] = []"
| "page_pass start_page end_page (chunk # rest) =
     (case extract_page_numbers_from_string (page_num chunk) of
        [] \<Rightarrow> chunk # page_pass start_page end_page rest
      | p # ps \<Rightarrow>
          (let min_page = fold min ps p; max_page = fold max ps p in
           if lt_bound max_page start_page then page_pass start_page end_page rest
           else if gt_bound min_page end_page then page_pass start_page end_page rest
           else chunk # page_pass start_page end_page rest))"

definition apply_range_limitations ::
  "SearchResult list \<Rightarrow> int option \<Rightarrow> int option \<Rightarrow> int option \<Rightarrow> int option \<Rightarrow> SearchResult list" where
  "apply_range_limitations chunks start_page end_page start_chunk_id end_chunk_id =
     (if chunks = [] then chunks
      else
        let filtered_chunks =
              (if start_chunk_id \<noteq> None \<or> end_chunk_id \<noteq> None
               then chunk_id_pass start_chunk_id end_chunk_id chunks else chunks)
        in if start_page \<noteq> None \<or> end_page \<noteq> None
           then page_pass start_page end_page filtered_chunks else filtered_chunks)"

text \<open>
  \<open>expand_chunks\<close>. The source collects the target ids in a set and takes its \<open>min\<close> and
  \<open>max\<close>; the set is not empty there, since an empty target list has returned before.
  \<open>list.sort\<close> with a key is a stable sort, as \<open>sort_key\<close> is.
\<close>

fun select_range :: "int \<Rightarrow> int \<Rightarrow> SearchResult list \<Rightarrow> SearchResult list" where
  "select_range expand_start_id expand_end_id [] = []"
| "select_range expand_start_id expand_end_id (chunk # rest) =
     (if expand_start_id \<le> chunk_id chunk \<and> chunk_id chunk \<le> expand_end_id
      then chunk # select_range expand_start_id expand_end_id rest
      else select_range expand_start_id expand_end_id rest)"

definition expand_chunks ::
  "SearchResult list \<Rightarrow> SearchResult list \<Rightarrow> int \<Rightarrow> int \<Rightarrow> SearchResult list" where
  "expand_chunks target_chunks all_chunks expand_before expand_after =
     (if target_chunks = [] \<or> (expand_before = 0 \<and> expand_after = 0) then target_chunks
      else
        (case map chunk_id target_chunks of
           [] \<Rightarrow> target_chunks
         | i # ids \<Rightarrow>
             (let min_chunk_id = fold min ids i;
                  max_chunk_id = fold max ids i;
                  expand_start_id = min_chunk_id - expand_before;
                  expand_end_id = max_chunk_id + expand_after
              in sort_key chunk_id (select_range expand_start_id expand_end_id all_chunks))))"

text \<open>\<open>merge_chunks_text\<close>: sort by chunk\_id (stable), join the texts with no separator.\<close>

definition merge_chunks_text :: "SearchResult list \<Rightarrow> pystr" where
  "merge_chunks_text chunks =
     (if chunks = [] then [] else concat (map chunk_text (sort_key chunk_id chunks)))"

section \<open>What the range filter is meant to keep\<close>

text \<open>
  \<open>id_keep\<close>: the chunk\_id lies within whichever id bounds are given.
  \<open>page_set_meets\<close>: some parsed page number lies within whichever page bounds are given
  (the page set intersects the range). \<open>page_span_meets\<close>: the span from the least to the
  greatest parsed page number overlaps the range, that is, some page is at least the
  lower bound and some page is at most the upper bound.
\<close>

definition in_bounds :: "int option \<Rightarrow> int option \<Rightarrow> int \<Rightarrow> bool" where
  "in_bounds lo hi x =
     ((case lo of None \<Rightarrow> True | Some l \<Rightarrow> l \<le> x) \<and> (case hi of None \<Rightarrow> True | Some h \<Rightarrow> x \<le> h))"

definition id_keep :: "int option \<Rightarrow> int option \<Rightarrow> SearchResult \<Rightarrow> bool" where
  "id_keep idLo idHi c = in_bounds idLo idHi (chunk_id c)"

definition page_set_meets :: "int option \<Rightarrow> int option \<Rightarrow> SearchResult \<Rightarrow> bool" where
  "page_set_meets pageLo pageHi c =
     list_ex (in_bounds pageLo pageHi) (extract_page_numbers_from_string (page_num c))"

definition page_span_meets :: "int option \<Rightarrow> int option \<Rightarrow> SearchResult \<Rightarrow> bool" where
  "page_span_meets pageLo pageHi c =
     (let pages = extract_page_numbers_from_string (page_num c) in
      list_ex (in_bounds pageLo None) pages \<and> list_ex (in_bounds None pageHi) pages)"

definition unparsable :: "SearchResult \<Rightarrow> bool" where
  "unparsable c \<longleftrightarrow> extract_page_numbers_from_string (page_num c) = []"

text \<open>A chunk with a given chunk\_id, page label and text, for the concrete examples below.\<close>

definition mk_chunk :: "int \<Rightarrow> pystr \<Rightarrow> pystr \<Rightarrow> SearchResult" where
  "mk_chunk i label body =
     \<lparr>global_id = [], chunk_id = i, source_file = [], page_num = label, chunk_text = body,
      score = 0, fund_code = [], date = [], short_name = [], from_methods = []\<rparr>"

section \<open>Hybrid merge (searchers/hybrid\_searcher.py)\<close>

text \<open>
  \<open>HybridSearcher._merge_and_deduplicate\<close>. The source keeps the list \<open>all_results\<close> and the
  set \<open>seen_ids\<close> and mutates the result objects in place. An object enters \<open>all_results\<close>
  only when its global id is new, it gets a fresh tag list at that moment, and only objects
  of \<open>all_results\<close> are changed afterwards, so passing the records by value gives the same
  list. The counters and the per-source lists of the source are only printed.
\<close>

text \<open>The first loop: vector results, in order.\<close>

fun vector_loop ::
  "SearchResult list \<Rightarrow> SearchResult list \<Rightarrow> pystr set \<Rightarrow> SearchResult list \<times> pystr set" where
  "vector_loop [] all_results seen_ids = (all_results, seen_ids)"
| "vector_loop (result # rest) all_results seen_ids =
     (if global_id result \<notin> seen_ids
      then vector_loop rest
             (all_results @ [result\<lparr>from_methods := [asc ''vector'']\<rparr>])
             (insert (global_id result) seen_ids)
      else vector_loop rest all_results seen_ids)"

text \<open>
  The inner loop of the second pass: the first entry with the given global id gets the
  tag \<open>keyword\<close> appended unless it has it; the loop stops there.
\<close>

fun mark_keyword :: "pystr \<Rightarrow> SearchResult list \<Rightarrow> SearchResult list" where
  "mark_keyword gid [] = []"
| "mark_keyword gid (existing # rest) =
     (if global_id existing = gid
      then (if asc ''keyword'' \<notin> set (from_methods existing)
            then existing\<lparr>from_methods := from_methods existing @ [asc ''keyword'']\<rparr> # rest
            else existing # rest)
      else existing # mark_keyword gid rest)"

text \<open>The second loop: keyword results, in order.\<close>

fun keyword_loop ::
  "SearchResult list \<Rightarrow> SearchResult list \<Rightarrow> pystr set \<Rightarrow> SearchResult list \<times> pystr set" where
  "keyword_loop [] all_results seen_ids = (all_results, seen_ids)"
| "keyword_loop (result # rest) all_results seen_ids =
     (if global_id result \<notin> seen_ids
      then keyword_loop rest
             (all_results @ [result\<lparr>from_methods := [asc ''keyword'']\<rparr>])
             (insert (global_id result) seen_ids)
      else keyword_loop rest (mark_keyword (global_id result) all_results) seen_ids)"

text \<open>
  The sort key of the final \<open>all_results.sort\<close>: a pair, compared lexicographically, of 0
  for an entry tagged \<open>vector\<close> and 1 otherwise, and the negated score.
\<close>

definition sort_rank :: "SearchResult \<Rightarrow> nat \<times> real" where
  "sort_rank x = (if asc ''vector'' \<in> set (from_methods x) then 0 else 1, - score x)"

definition merge_and_deduplicate :: "SearchResult list \<Rightarrow> SearchResult list \<Rightarrow> SearchResult list" where
  "merge_and_deduplicate vector_results keyword_results =
     (case vector_loop vector_results [] {} of
        (after_vector, seen_vector) \<Rightarrow>
          (case keyword_loop keyword_results after_vector seen_vector of
             (all_results, seen_ids) \<Rightarrow> sort_key sort_rank all_results))"

text \<open>
  Notions for the statements about the merge: the global ids of a list, the first entry
  of a list with a given global id, and a candidate with a given id and score.
\<close>

definition ids_of :: "SearchResult list \<Rightarrow> pystr set" where
  "ids_of xs = set (map global_id xs)"

definition first_with_id :: "pystr \<Rightarrow> SearchResult list \<Rightarrow> SearchResult option" where
  "first_with_id g xs = find (\<lambda>x. global_id x = g) xs"

definition has_vector :: "SearchResult \<Rightarrow> bool" where
  "has_vector x \<longleftrightarrow> asc ''vector'' \<in> set (from_methods x)"

definition keyword_only :: "SearchResult \<Rightarrow> bool" where
  "keyword_only x \<longleftrightarrow> from_methods x = [asc ''keyword'']"

definition mk_hit :: "pystr \<Rightarrow> real \<Rightarrow> SearchResult" where
  "mk_hit g s =
     \<lparr>global_id = g, chunk_id = 0, source_file = [], page_num = [], chunk_text = [],
      score = s, fund_code = [], date = [], short_name = [], from_methods = []\<rparr>"

text \<open>
  A closed form of the two loops, used in the proofs: \<open>unseen S xs\<close> keeps the first entry
  of \<open>xs\<close> for every global id outside \<open>S\<close>; \<open>merged\<close> is \<open>all_results\<close> before the sort.
\<close>

fun unseen :: "pystr set \<Rightarrow> SearchResult list \<Rightarrow> SearchResult list" where
  "unseen S [] = []"
| "unseen S (x # xs) =
     (if global_id x \<in> S then unseen S xs else x # unseen (insert (global_id x) S) xs)"

definition tag_with :: "pystr \<Rightarrow> SearchResult \<Rightarrow> SearchResult" where
  "tag_with t x = x\<lparr>from_methods := [t]\<rparr>"

definition add_keyword :: "SearchResult \<Rightarrow> SearchResult" where
  "add_keyword x =
     (if asc ''keyword'' \<in> set (from_methods x) then x
      else x\<lparr>from_methods := from_methods x @ [asc ''keyword'']\<rparr>)"

definition merged :: "SearchResult list \<Rightarrow> SearchResult list \<Rightarrow> SearchResult list" where
  "merged vs ks =
     map (\<lambda>x. if global_id x \<in> ids_of ks then add_keyword x else x)
       (map (tag_with (asc ''vector'')) (unseen {} vs))
     @ map (tag_with (asc ''keyword'')) (unseen (ids_of vs) ks)"



section \<open>Completion-model replies (utils/llm\_utils.py)\<close>

text \<open>
  The values the standard JSON decoder returns. An object is a list of key-value pairs in
  which a key is looked up with \<open>map_of\<close>. The decoder itself is not code of this
  repository: it is the parameter \<open>json_loads\<close> of the functions below, \<open>None\<close> when it
  raises, and the statements hold for every decoder.
\<close>

datatype json =
    JNull
  | JBool bool
  | JInt int
  | JFloat real
  | JStr pystr
  | JArr "json list"
  | JObj "(pystr \<times> json) list"

text \<open>Python truth value of a decoded value (\<open>if not result\<close>, \<open>value or ""\<close>).\<close>

fun truthy :: "json \<Rightarrow> bool" where
  "truthy JNull = False"
| "truthy (JBool b) = b"
| "truthy (JInt i) = (i \<noteq> 0)"
| "truthy (JFloat x) = (x \<noteq> 0)"
| "truthy (JStr s) = (s \<noteq> [])"
| "truthy (JArr xs) = (xs \<noteq> [])"
| "truthy (JObj kvs) = (kvs \<noteq> [])"

text \<open>
  \<open>LLMUtils.parse_llm_json_response\<close>. The reply is stripped, a leading code fence
  (three backquotes, 96, with an optional \<open>json\<close>) and a trailing fence are removed, and
  the rest is stripped and decoded. If that raises, the first match of the pattern
  \<open>\{[^}]*\}\<close> is decoded instead: it runs from the first opening brace (123) to the first
  closing brace (125) after it. When nothing decodes the result is the empty object.
\<close>

definition code_fence :: pystr where
  "code_fence = [96, 96, 96]"

definition strip_fences :: "pystr \<Rightarrow> pystr" where
  "strip_fences raw_response =
     (let stripped = py_strip raw_response;
          opened = (if prefix code_fence stripped
                    then (let t = drop 3 stripped in if prefix (asc ''json'') t then drop 4 t else t)
                    else stripped);
          closed = (if suffix code_fence opened then take (length opened - 3) opened else opened)
      in py_strip closed)"

definition first_brace_block :: "pystr \<Rightarrow> pystr option" where
  "first_brace_block s =
     (case dropWhile (\<lambda>c. c \<noteq> 123) s of
        [] \<Rightarrow> None
      | b # rest \<Rightarrow>
          (let inner = takeWhile (\<lambda>c. c \<noteq> 125) rest in
           if length inner < length rest then Some (b # inner @ [125]) else None))"

definition parse_llm_json_response :: "(pystr \<Rightarrow> json option) \<Rightarrow> pystr \<Rightarrow> json" where
  "parse_llm_json_response json_loads raw_response =
     (let cleaned = strip_fences raw_response in
      case json_loads cleaned of
        Some v \<Rightarrow> v
      | None \<Rightarrow>
          (case first_brace_block cleaned of
             None \<Rightarrow> JObj []
           | Some block \<Rightarrow> (case json_loads block of Some v \<Rightarrow> v | None \<Rightarrow> JObj [])))"

section \<open>The title selector (utils/chunk\_selector.py)\<close>

text \<open>
  String literals of the selector, as code points: the key of the selection field
  (\<open>BEST_CHOICE_KEY\<close>, "best choice"), the no-match sentinel (\<open>NO_MATCH\<close>, "the text block
  holding the target title was not found"), the marker before an ordinal (\<open>OPTION_MARK\<close>,
  "option") and the note for an empty candidate list (\<open>NO_CANDIDATES\<close>).
\<close>

definition BEST_CHOICE_KEY :: pystr where
  "BEST_CHOICE_KEY = [26368, 20339, 36873, 25321]"

definition NO_MATCH :: pystr where
  "NO_MATCH = [26410, 26816, 32034, 21040, 30446, 26631, 26631, 39064, 25152, 22312, 25991, 26412, 22359]"

definition OPTION_MARK :: pystr where
  "OPTION_MARK = [36873, 39033]"

definition NO_CANDIDATES :: pystr where
  "NO_CANDIDATES = [26410, 25552, 20379, 20505, 36873, 35821, 22359]"

text \<open>
  \<open>re.search\<close> of the option marker followed by \<open>(\d+)\<close>: the digits of the leftmost place
  where the marker is followed by at least one decimal digit, as many digits as follow.
\<close>

definition is_digit :: "nat \<Rightarrow> bool" where
  "is_digit c \<longleftrightarrow> decimal_value c \<noteq> None"

fun search_option :: "pystr \<Rightarrow> pystr option" where
  "search_option [] = None"
| "search_option (c # cs) =
     (if prefix OPTION_MARK (c # cs) \<and> takeWhile is_digit (drop (length OPTION_MARK) (c # cs)) \<noteq> []
      then Some (takeWhile is_digit (drop (length OPTION_MARK) (c # cs)))
      else search_option cs)"

text \<open>
  \<open>_parse_selection_result\<close> returns the pair (index, no match). Every exception inside
  is caught and gives \<open>(None, False)\<close>: \<open>.get\<close> on a decoded value that is not an object,
  and \<open>.strip()\<close> on a selection field that is not a string.
\<close>

definition parse_selection_result ::
  "(pystr \<Rightarrow> json option) \<Rightarrow> pystr \<Rightarrow> nat \<Rightarrow> nat option \<times> bool" where
  "parse_selection_result json_loads raw_response total_candidates =
     (let result = parse_llm_json_response json_loads raw_response in
      if \<not> truthy result then (None, False)
      else
        (case result of
           JObj kvs \<Rightarrow>
             (case (case map_of kvs BEST_CHOICE_KEY of
                      None \<Rightarrow> JStr []
                    | Some v \<Rightarrow> if truthy v then v else JStr []) of
                JStr s \<Rightarrow>
                  (let selection = py_strip s in
                   if selection = NO_MATCH then (None, True)
                   else
                     (case search_option selection of
                        None \<Rightarrow> (None, False)
                      | Some digits \<Rightarrow>
                          (case py_int digits of
                             None \<Rightarrow> (None, False)
                           | Some option_num \<Rightarrow>
                               (let index = option_num - 1 in
                                if 0 \<le> index \<and> index < int total_candidates
                                then (Some (nat index), False)
                                else (None, False)))))
              | _ \<Rightarrow> (None, False))
         | _ \<Rightarrow> (None, False)))"

text \<open>
  \<open>select_best_chunk\<close>. The completion model is the parameter \<open>llm\<close>: given what the prompt
  is built from (the search description, the candidates, the chunks of the file and the
  context flag) it yields the reply text, or \<open>None\<close> when the call raises, in which case
  \<open>_call_llm_for_selection\<close> returns the empty string. The result records the chunk
  returned, the note left in \<open>_last_selection_note\<close>, and how many calls of the model were
  made. Building the prompt does not raise on records of this type, so the outer handler
  of the source, which also returns the first candidate, is not reached.
\<close>

record selection =
  chosen :: "SearchResult option"
  note_left :: "pystr option"
  llm_calls :: nat

type_synonym completion_model = "pystr \<times> SearchResult list \<times> SearchResult list \<times> bool \<Rightarrow> pystr option"

definition call_llm_for_selection ::
  "completion_model \<Rightarrow> pystr \<times> SearchResult list \<times> SearchResult list \<times> bool \<Rightarrow> pystr" where
  "call_llm_for_selection llm request =
     (case llm request of None \<Rightarrow> [] | Some content \<Rightarrow> py_strip content)"

definition select_best_chunk ::
  "(pystr \<Rightarrow> json option) \<Rightarrow> completion_model \<Rightarrow> pystr \<Rightarrow> SearchResult list \<Rightarrow> SearchResult list \<Rightarrow>
   bool \<Rightarrow> pystr \<Rightarrow> selection" where
  "select_best_chunk json_loads llm search_info candidate_results all_chunks expand_context intent =
     (case candidate_results of
        [] \<Rightarrow>
          \<lparr>chosen = None,
           note_left = (if intent = asc ''title'' then Some NO_CANDIDATES else None),
           llm_calls = 0\<rparr>
      | [only] \<Rightarrow> \<lparr>chosen = Some only, note_left = None, llm_calls = 0\<rparr>
      | first_candidate # _ # _ \<Rightarrow>
          if intent \<noteq> asc ''title''
          then \<lparr>chosen = Some first_candidate, note_left = None, llm_calls = 0\<rparr>
          else
            (let selection_result =
                   call_llm_for_selection llm (search_info, candidate_results, all_chunks, expand_context)
             in case parse_selection_result json_loads selection_result (length candidate_results) of
                  (selected_index, True) \<Rightarrow>
                    \<lparr>chosen = None, note_left = Some NO_MATCH, llm_calls = 1\<rparr>
                | (Some i, False) \<Rightarrow>
                    \<lparr>chosen = Some (candidate_results ! i), note_left = None, llm_calls = 1\<rparr>
                | (None, False) \<Rightarrow>
                    \<lparr>chosen = Some first_candidate, note_left = None, llm_calls = 1\<rparr>))"


text \<open>
  For the concrete examples: the reply the prompt asks for, reduced to its selection field
  (\<open>{"<key>": "<selection>"}\<close>, with 123 and 125 the braces, 34 the double quote, 58 the
  colon), and a decoder that decodes replies of exactly this shape and raises on all else.
\<close>

definition selection_reply :: "pystr \<Rightarrow> pystr" where
  "selection_reply sel = [123, 34] @ BEST_CHOICE_KEY @ [34, 58, 32, 34] @ sel @ [34, 125]"

definition demo_json_loads :: "pystr \<Rightarrow> json option" where
  "demo_json_loads s =
     (let opening = [123, 34] @ BEST_CHOICE_KEY @ [34, 58, 32, 34] in
      if prefix opening s \<and> suffix [34, 125] s \<and> length opening + 2 \<le> length s
      then Some (JObj [(BEST_CHOICE_KEY,
                        JStr (take (length s - length opening - 2) (drop (length opening) s)))])
      else None)"


section \<open>The retrieval orchestrator (prospectus\_search\_tool.py)\<close>

text \<open>
  The two shapes of a response dictionary. \<open>Flat\<close> has the keys \<open>success\<close>,
  \<open>source_file\<close>, \<open>content\<close>, \<open>start_page\<close>, \<open>end_page\<close>, \<open>start_chunk_id\<close>, \<open>end_chunk_id\<close>,
  \<open>error\<close>; \<open>Listed\<close> has the keys \<open>success\<close>, \<open>source_file\<close>, \<open>error\<close>,
  \<open>retrieved_count\<close>, \<open>retrieved_summary\<close>, \<open>results\<close>, each result holding a text and
  its four extents. \<open>None\<close> is Python's \<open>None\<close>.
\<close>

datatype response =
    Flat bool "pystr option" "pystr option" "int option" "int option" "int option" "int option"
      "pystr option"
  | Listed bool "pystr option" "pystr option" nat "pystr option"
      "(pystr \<times> int option \<times> int option \<times> int option \<times> int option) list"

text \<open>
  String literals of the orchestrator, as code points: the catalog marker (\<open>CATALOG\<close>,
  "table of contents"), the two title-lookup prefixes and the two content-lookup prefixes
  (with a full-width colon, 65306, and with an ASCII colon), and the error messages.
\<close>

definition CATALOG :: pystr where
  "CATALOG = [30446, 24405]"

definition TITLE_PREFIXES :: "pystr list" where
  "TITLE_PREFIXES = [[31456, 33410, 26631, 39064, 26816, 32034, 65306], [31456, 33410, 26631, 39064, 26816, 32034, 58]]"

definition CONTENT_PREFIXES :: "pystr list" where
  "CONTENT_PREFIXES = [[20869, 23481, 26816, 32034, 65306], [20869, 23481, 26816, 32034, 58]]"

definition FUND_CODE_EMPTY :: pystr where
  "FUND_CODE_EMPTY = [22522, 37329, 20195, 30721, 19981, 33021, 20026, 31354]"

definition SEARCH_INFO_MISSING :: pystr where
  "SEARCH_INFO_MISSING = [26816, 32034, 20449, 24687, 19981, 33021, 20026, 31354]"

definition PAGES_REVERSED :: pystr where
  "PAGES_REVERSED = [36215, 22987, 39029, 30721, 19981, 33021, 22823, 20110, 25130, 27490, 39029, 30721]"

definition CHUNK_IDS_REVERSED :: pystr where
  "CHUNK_IDS_REVERSED = [36215, 22987] @ asc ''chunk_id'' @ [19981, 33021, 22823, 20110, 25130, 27490] @ asc ''chunk_id''"

definition not_found_message :: "pystr \<Rightarrow> bool \<Rightarrow> pystr" where
  "not_found_message fund is_expansion =
     [26410, 25214, 21040, 22522, 37329, 32] @ fund @ [32, 30340] @ (if is_expansion then [25193, 21215] else [39318, 21457]) @ [25307, 21215, 35828, 26126, 20070]"

definition SEARCH_FAILED :: pystr where
  "SEARCH_FAILED = [26816, 32034, 36807, 31243, 20013, 21457, 29983, 38169, 35823, 58, 32]"

text \<open>\<open>_create_error_result\<close>: the flat shape for the intent \<open>title\<close>, the list shape otherwise.\<close>

definition create_error_result :: "pystr \<Rightarrow> pystr \<Rightarrow> response" where
  "create_error_result error_msg intent =
     (if intent = asc ''title''
      then Flat False None None None None None None (Some error_msg)
      else Listed False None (Some error_msg) 0 None [])"

text \<open>
  \<open>_parse_search_intent\<close> on a string: the pair of intent and query. The prefixes are
  tried in the order of the dictionary, title first.
\<close>

definition parse_search_intent :: "pystr \<Rightarrow> pystr \<times> pystr" where
  "parse_search_intent search_info =
     (let raw = py_strip search_info in
      if raw = [] then (asc ''content'', [])
      else
        (case find (\<lambda>p. prefix p raw) TITLE_PREFIXES of
           Some p \<Rightarrow> (asc ''title'', py_strip (drop (length p) raw))
         | None \<Rightarrow>
             (case find (\<lambda>p. prefix p raw) CONTENT_PREFIXES of
                Some p \<Rightarrow> (asc ''content'', py_strip (drop (length p) raw))
              | None \<Rightarrow> (asc ''content'', raw))))"

text \<open>
  \<open>_infer_intent_for_error\<close>: a missing or empty search text and the catalog marker give
  \<open>content\<close>; anything else gives its parsed intent.
\<close>

definition infer_intent_for_error :: "pystr option \<Rightarrow> pystr" where
  "infer_intent_for_error search_info =
     (case search_info of
        None \<Rightarrow> asc ''content''
      | Some s \<Rightarrow>
          if s = [] \<or> s = CATALOG then asc ''content'' else fst (parse_search_intent s))"

text \<open>\<open>_validate_parameters\<close>: the error message, or \<open>None\<close> when the parameters are valid.\<close>

definition validate_parameters ::
  "pystr \<Rightarrow> pystr option \<Rightarrow> int option \<Rightarrow> int option \<Rightarrow> int option \<Rightarrow> int option \<Rightarrow> pystr option" where
  "validate_parameters fund search_info start_page end_page start_chunk_id end_chunk_id =
     (if fund = [] \<or> py_strip fund = [] then Some FUND_CODE_EMPTY
      else if search_info = None then Some SEARCH_INFO_MISSING
      else if (case (start_page, end_page) of (Some lo, Some hi) \<Rightarrow> lo > hi | _ \<Rightarrow> False)
        then Some PAGES_REVERSED
      else if (case (start_chunk_id, end_chunk_id) of (Some lo, Some hi) \<Rightarrow> lo > hi | _ \<Rightarrow> False)
        then Some CHUNK_IDS_REVERSED
      else None)"

text \<open>
  \<open>search_prospectus\<close>. Its collaborators are parameters: \<open>determine_file\<close> is the catalog
  lookup of the file manager (the file name, or \<open>None\<close>), \<open>directory_content\<close> is the
  catalog pipeline of the directory searcher and \<open>general_content\<close> is
  \<open>_search_general_content\<close>; each may raise, which is \<open>Inl\<close> with the message of the
  exception. The result is \<open>Inl\<close> when an exception leaves the function: the first statement,
  which prints the first 50 characters of the search text, stands before the validation
  and outside every handler, and raises when the search text is \<open>None\<close>.
\<close>

definition search_prospectus ::
  "(pystr \<Rightarrow> bool \<Rightarrow> pystr + pystr option) \<Rightarrow>
   (pystr \<Rightarrow> pystr \<Rightarrow> pystr + response) \<Rightarrow>
   (pystr \<Rightarrow> pystr \<Rightarrow> pystr \<Rightarrow> int option \<Rightarrow> int option \<Rightarrow> int option \<Rightarrow> int option \<Rightarrow>
      int \<Rightarrow> int \<Rightarrow> pystr + response) \<Rightarrow>
   pystr \<Rightarrow> pystr option \<Rightarrow> bool \<Rightarrow> int option \<Rightarrow> int option \<Rightarrow> int option \<Rightarrow> int option \<Rightarrow>
   int \<Rightarrow> int \<Rightarrow> pystr + response" where
  "search_prospectus determine_file directory_content general_content
     fund search_info is_expansion start_page end_page start_chunk_id end_chunk_id
     expand_before expand_after =
     (case search_info of
        None \<Rightarrow> Inl (asc ''TypeError'')
      | Some info \<Rightarrow>
          (let intent_for_error = infer_intent_for_error search_info in
           case validate_parameters fund search_info start_page end_page
                  start_chunk_id end_chunk_id of
             Some problem \<Rightarrow> Inr (create_error_result problem intent_for_error)
           | None \<Rightarrow>
               (case determine_file fund is_expansion of
                  Inl e \<Rightarrow> Inr (create_error_result (SEARCH_FAILED @ e) intent_for_error)
                | Inr None \<Rightarrow>
                    Inr (create_error_result (not_found_message fund is_expansion) intent_for_error)
                | Inr (Some file) \<Rightarrow>
                    if file = []
                    then Inr (create_error_result (not_found_message fund is_expansion)
                                intent_for_error)
                    else
                      (case (if info = CATALOG then directory_content fund file
                             else general_content fund file info start_page end_page
                                    start_chunk_id end_chunk_id expand_before expand_after) of
                         Inl e \<Rightarrow> Inr (create_error_result (SEARCH_FAILED @ e) intent_for_error)
                       | Inr r \<Rightarrow> Inr r))))"

section \<open>The tool wrapper (tool\_entry.py)\<close>

text \<open>
  \<open>_guess_intent\<close> and \<open>_build_wrapper_error\<close>, the error responses of the wrapper that
  callers of the tool go through. \<open>None\<close> stands for a search text that is not a string.
\<close>

definition guess_intent :: "pystr option \<Rightarrow> pystr" where
  "guess_intent search_info =
     (case search_info of
        None \<Rightarrow> asc ''content''
      | Some s \<Rightarrow>
          (let stripped = py_strip s in
           if stripped = [] then asc ''content''
           else if stripped = CATALOG then asc ''catalog''
           else if list_ex (\<lambda>p. prefix p stripped) TITLE_PREFIXES then asc ''title''
           else asc ''content''))"

definition build_wrapper_error :: "pystr \<Rightarrow> pystr \<Rightarrow> response" where
  "build_wrapper_error intent message =
     (if intent = asc ''title'' \<or> intent = asc ''catalog''
      then Flat False None None None None None None (Some message)
      else Listed False None (Some message) 0 None [])"


section \<open>The text-protocol conversation driver (demo\_deepseek\_simulated\_calling.py)\<close>

text \<open>
  String literals of the driver, as code points. The two block markers are ASCII. The
  others are the two analysis headings ("analysis of this round", "final analysis"), the
  error texts of the parser, the feedback texts and the texts of the final results.
\<close>

definition TOOL_CALL_MARK :: pystr where
  "TOOL_CALL_MARK = asc ''TOOL_CALL:''"

definition FINAL_ANSWER_MARK :: pystr where
  "FINAL_ANSWER_MARK = asc ''FINAL_ANSWER:''"

definition ROUND_ANALYSIS :: pystr where
  "ROUND_ANALYSIS = [26412, 36718, 20998, 26512]"

definition FINAL_ANALYSIS :: pystr where
  "FINAL_ANALYSIS = [26368, 32456, 20998, 26512]"

definition MISSING_PARAMS :: pystr where
  "MISSING_PARAMS = [32570, 23569, 24517, 22635, 21442, 25968, 58, 32]"

definition JSON_FAILED :: pystr where
  "JSON_FAILED = [74, 83, 79, 78, 35299, 26512, 22833, 36133, 58, 32]"

definition EMPTY_FINAL_ANSWER :: pystr where
  "EMPTY_FINAL_ANSWER = [26368, 32456, 31572, 26696, 19981, 33021, 20026, 31354]"

definition NO_VALID_FORMAT :: pystr where
  "NO_VALID_FORMAT = [26410, 25214, 21040, 26377, 25928, 30340] @ asc ''TOOL_CALL'' @ [25110] @ asc ''FINAL_ANSWER'' @ [26684, 24335]"

definition MODEL_CALL_FAILED :: pystr where
  "MODEL_CALL_FAILED = [27169, 22411, 35843, 29992, 22833, 36133, 58, 32]"

definition TOOL_CALL_FAILED :: pystr where
  "TOOL_CALL_FAILED = [24037, 20855, 35843, 29992, 22833, 36133, 58, 32]"

definition MAX_ROUNDS_REACHED :: pystr where
  "MAX_ROUNDS_REACHED = [36798, 21040, 26368, 22823, 36718, 25968, 32]"

definition BUDGET_ANSWER :: pystr where
  "BUDGET_ANSWER = [36798, 21040, 26368, 22823, 23545, 35805, 36718, 25968, 65292, 26410, 33021, 33719, 24471, 23436, 25972, 31572, 26696]"

text \<open>\<open>str\<close> of an integer, for the formatted texts.\<close>

fun str_nat :: "nat \<Rightarrow> pystr" where
  "str_nat n = (if n < 10 then [48 + n] else str_nat (n div 10) @ [48 + n mod 10])"

definition str_int :: "int \<Rightarrow> pystr" where
  "str_int i = (if i < 0 then 45 # str_nat (nat (- i)) else str_nat (nat i))"

text \<open>\<open>sep.join(parts)\<close>.\<close>

fun py_join :: "pystr \<Rightarrow> pystr list \<Rightarrow> pystr" where
  "py_join sep [] = []"
| "py_join sep [p] = p"
| "py_join sep (p # q # ps) = p @ sep @ py_join sep (q # ps)"

text \<open>
  The feedback texts. \<open>corrective_prompt\<close> is the message sent after a malformed reply: the
  errors joined by \<open>; \<close>, then the two allowed formats, each with its marker (the
  text is cut at the two markers into head, middle and tail).
\<close>

definition corrective_head :: "pystr list \<Rightarrow> pystr" where
  "corrective_head errors =
     [36755, 20986, 26684, 24335, 26377, 35823, 65306] @ py_join (asc ''; '') errors @ [10, 10]
     @ [35831, 20005, 26684, 25353, 29031, 20197, 19979, 26684, 24335, 36755, 20986, 65306] @ [10]
     @ [49, 46, 32, 22914, 38656, 35843, 29992, 24037, 20855, 65292, 20351, 29992, 26684, 24335, 65306] @ [10]"

definition corrective_middle :: pystr where
  "corrective_middle =
     [10] @ asc ''{ '' @ [20165, 22635, 20889, 26412, 36718, 38656, 35201, 30340, 21442, 25968] @ asc '' }'' @ [10, 10]
     @ [50, 46, 32, 22914, 32473, 20986, 26368, 32456, 31572, 26696, 65292, 20351, 29992, 26684, 24335, 65306] @ [10]"

definition corrective_tail :: pystr where
  "corrective_tail = [10] @ [20855, 20307, 31572, 26696, 20869, 23481]"

definition corrective_prompt :: "pystr list \<Rightarrow> pystr" where
  "corrective_prompt errors =
     corrective_head errors @ TOOL_CALL_MARK @ corrective_middle @ FINAL_ANSWER_MARK
     @ corrective_tail"

definition tool_feedback :: "pystr \<Rightarrow> pystr" where
  "tool_feedback tool_response =
     [24037, 20855, 35843, 29992, 24050, 25191, 34892, 23436, 25104, 65292, 32467, 26524, 22914, 19979, 65306] @ [10, 10] @ tool_response @ [10, 10] @ [35831, 22522, 20110, 27492, 32467, 26524, 32487, 32493, 20998, 26512, 25110, 32473, 20986, 26368, 32456, 31572, 26696, 12290, 35760, 20303, 35201, 25353, 29031, 25351, 23450, 26684, 24335, 36755, 20986, 12290]"

definition retry_feedback :: "pystr \<Rightarrow> pystr" where
  "retry_feedback error_msg = error_msg @ [10, 10] @ [35831, 26816, 26597, 21442, 25968, 24182, 37325, 35797, 65292, 25110, 37319, 29992, 20854, 20182, 26816, 32034, 31574, 30053, 12290, 35760, 20303, 35201, 25353, 29031, 25351, 23450, 26684, 24335, 36755, 20986, 12290]"

definition reasoning_entry :: "int \<Rightarrow> pystr \<Rightarrow> pystr" where
  "reasoning_entry round_index reasoning =
     asc ''=== '' @ [31532] @ asc '' '' @ str_int round_index @ asc '' '' @ [36718, 25512, 29702] @ asc '' ===''
     @ [10] @ reasoning"

subsection \<open>\<open>_parse_reasoner_output\<close>\<close>

text \<open>
  The regular expressions of the parser, all searched with \<open>re.DOTALL\<close>.
  \<open>take_until marks s\<close> is the lazy group before a lookahead for one of the marks or the
  end of the text. \<open>search_analysis heading marks\<close> is the stripped group of the leftmost
  match of the heading, a colon (full-width, 65306, or ASCII, 58), whitespace and that
  group. \<open>search_tool_call\<close> is the group of \<open>TOOL_CALL:\s*(\{.*?\})\<close>: at the leftmost
  marker that is followed, after whitespace, by an opening brace with a closing brace
  somewhere behind it, the text from the opening brace to the first closing brace.
  \<open>search_final_answer\<close> is the group of \<open>FINAL_ANSWER:\s*(.*)\s*$\<close>, which matches at the
  first marker and takes the rest of the text after the whitespace.
\<close>

fun take_until :: "pystr list \<Rightarrow> pystr \<Rightarrow> pystr" where
  "take_until marks [] = []"
| "take_until marks (c # cs) =
     (if list_ex (\<lambda>m. prefix m (c # cs)) marks then [] else c # take_until marks cs)"

fun search_analysis :: "pystr \<Rightarrow> pystr list \<Rightarrow> pystr \<Rightarrow> pystr option" where
  "search_analysis heading marks [] = None"
| "search_analysis heading marks (c # cs) =
     (if prefix (heading @ [65306]) (c # cs) \<or> prefix (heading @ [58]) (c # cs)
      then Some (py_strip (take_until marks
                   (dropWhile py_isspace (drop (length heading + 1) (c # cs)))))
      else search_analysis heading marks cs)"

definition brace_block_at :: "pystr \<Rightarrow> pystr option" where
  "brace_block_at s =
     (case s of
        [] \<Rightarrow> None
      | b # rest \<Rightarrow>
          if b = 123
          then (let inner = takeWhile (\<lambda>c. c \<noteq> 125) rest in
                if length inner < length rest then Some (b # inner @ [125]) else None)
          else None)"

fun search_tool_call :: "pystr \<Rightarrow> pystr option" where
  "search_tool_call [] = None"
| "search_tool_call (c # cs) =
     (if prefix TOOL_CALL_MARK (c # cs)
      then (case brace_block_at (dropWhile py_isspace (drop (length TOOL_CALL_MARK) (c # cs))) of
              Some block \<Rightarrow> Some block
            | None \<Rightarrow> search_tool_call cs)
      else search_tool_call cs)"

fun search_final_answer :: "pystr \<Rightarrow> pystr option" where
  "search_final_answer [] = None"
| "search_final_answer (c # cs) =
     (if prefix FINAL_ANSWER_MARK (c # cs)
      then Some (dropWhile py_isspace (drop (length FINAL_ANSWER_MARK) (c # cs)))
      else search_final_answer cs)"

text \<open>
  The JSON decoder \<open>json.loads\<close> is a parameter. Applied to a text that starts with an
  opening brace it has three outcomes: the decoded object; \<open>JSONDecodeError\<close> with its
  message, for a text that is not JSON; or an exception of another class with its message,
  which the decoder raises for a text it does not reject as JSON: \<open>ValueError\<close> for an
  integer literal of more digits than the interpreter converts (4300 by default) and
  \<open>RecursionError\<close> for lists or objects nested deeper than the recursion limit.
\<close>

datatype decoded =
    Decoded "(pystr \<times> json) list"
  | JSONDecodeError pystr
  | OtherError pystr

type_synonym decoder = "pystr \<Rightarrow> decoded"

text \<open>
  The value of the key \<open>type\<close> and the dictionary the parser returns. The handler of the
  parser is \<open>except json.JSONDecodeError\<close>, so an exception of another class leaves the
  parser: the result is \<open>Inr\<close> of the dictionary, or \<open>Inl\<close> of the message of the exception
  that propagates.
\<close>

datatype reply_type = TOOL_CALL | FINAL_ANSWER | FORMAT_ERROR | ERROR

record parsed_reply =
  p_type :: reply_type
  p_analysis :: pystr
  p_tool_call :: "(pystr \<times> json) list option"
  p_final_answer :: "pystr option"
  p_reasoning :: pystr
  p_errors :: "pystr list"

definition missing_params :: "(pystr \<times> json) list \<Rightarrow> pystr list" where
  "missing_params tool_call =
     filter (\<lambda>p. case map_of tool_call p of None \<Rightarrow> True | Some v \<Rightarrow> v = JNull)
       [asc ''fund_code'', asc ''search_info'']"

text \<open>The \<open>repr\<close> of a list of plain ASCII strings, as the f-string prints it.\<close>

definition repr_list :: "pystr list \<Rightarrow> pystr" where
  "repr_list ps = [91] @ py_join (asc '', '') (map (\<lambda>p. [39] @ p @ [39]) ps) @ [93]"

definition parse_reasoner_output ::
  "decoder \<Rightarrow> pystr \<Rightarrow> pystr \<Rightarrow> pystr + parsed_reply" where
  "parse_reasoner_output json_loads content reasoning_content =
     (let analysis =
            (case search_analysis ROUND_ANALYSIS [TOOL_CALL_MARK, FINAL_ANSWER_MARK] content of
               Some a \<Rightarrow> a
             | None \<Rightarrow>
                 (case search_analysis FINAL_ANALYSIS [FINAL_ANSWER_MARK] content of
                    Some a \<Rightarrow> a
                  | None \<Rightarrow> []));
          result = \<lparr>p_type = FORMAT_ERROR, p_analysis = analysis, p_tool_call = None,
                    p_final_answer = None, p_reasoning = reasoning_content, p_errors = []\<rparr>
      in case search_tool_call content of
           Some tool_call_json \<Rightarrow>
             (case json_loads tool_call_json of
                Decoded tool_call \<Rightarrow>
                  if missing_params tool_call \<noteq> []
                  then Inr (result\<lparr>p_type := ERROR,
                              p_errors := [MISSING_PARAMS @ repr_list (missing_params tool_call)]\<rparr>)
                  else Inr (result\<lparr>p_type := TOOL_CALL, p_tool_call := Some tool_call\<rparr>)
              | JSONDecodeError e \<Rightarrow>
                  Inr (result\<lparr>p_type := ERROR, p_errors := [JSON_FAILED @ e]\<rparr>)
              | OtherError e \<Rightarrow> Inl e)
         | None \<Rightarrow>
             (case search_final_answer content of
                Some rest \<Rightarrow>
                  (let final_answer = py_strip rest in
                   if final_answer = []
                   then Inr (result\<lparr>p_type := ERROR, p_errors := [EMPTY_FINAL_ANSWER]\<rparr>)
                   else Inr (result\<lparr>p_type := FINAL_ANSWER, p_final_answer := Some final_answer\<rparr>))
              | None \<Rightarrow> Inr (result\<lparr>p_type := FORMAT_ERROR, p_errors := [NO_VALID_FORMAT]\<rparr>)))"

subsection \<open>\<open>_chat_with_deepseek_reasoner\<close>\<close>

text \<open>
  A message of the history is a role and a content. The record of a round is the
  dictionary \<open>round_data\<close> without its wall-clock timestamp; the two tool fields are added
  to it after a tool call. \<open>chat_state\<close> holds the four lists the loop appends to.
\<close>

datatype role = System | User | Assistant

record round_data =
  rd_round_number :: int
  rd_reasoning_content :: pystr
  rd_response_content :: pystr
  rd_parsed_analysis :: pystr
  rd_parsed_type :: reply_type
  rd_tool_call_params :: "(pystr \<times> json) list option"
  rd_final_answer :: "pystr option"
  rd_errors :: "pystr list"
  rd_tool_execution_result :: "pystr option"
  rd_tool_success :: "bool option"

record tool_call_record =
  tc_round :: int
  tc_params :: "(pystr \<times> json) list option"
  tc_result :: "pystr option"
  tc_success :: bool
  tc_error :: "pystr option"

record chat_state =
  messages :: "(role \<times> pystr) list"
  conversation_rounds :: "round_data list"
  all_reasoning :: "pystr list"
  tool_calls_made :: "tool_call_record list"

text \<open>
  The dictionary the driver returns; \<open>res_history\<close> is not a key of it but the message
  history at the moment of return, kept to state what was fed back to the model.
\<close>

record chat_result =
  res_success :: bool
  res_error :: "pystr option"
  res_final_answer :: pystr
  res_conversation_rounds :: "round_data list"
  res_all_reasoning :: "pystr list"
  res_tool_calls :: "tool_call_record list"
  res_total_rounds :: int
  res_complete_reasoning_log :: "pystr option"
  res_history :: "(role \<times> pystr) list"

text \<open>
  The three ways out of the loop: the model call raised, a final answer was given, the
  round budget is used up.
\<close>

definition model_call_failed :: "pystr \<Rightarrow> int \<Rightarrow> chat_state \<Rightarrow> chat_result" where
  "model_call_failed e round_index st =
     \<lparr>res_success = False, res_error = Some (MODEL_CALL_FAILED @ e), res_final_answer = [],
      res_conversation_rounds = conversation_rounds st, res_all_reasoning = all_reasoning st,
      res_tool_calls = tool_calls_made st, res_total_rounds = round_index - 1,
      res_complete_reasoning_log = None, res_history = messages st\<rparr>"

definition final_answer_given :: "pystr \<Rightarrow> int \<Rightarrow> chat_state \<Rightarrow> chat_result" where
  "final_answer_given answer round_index st =
     \<lparr>res_success = True, res_error = None, res_final_answer = answer,
      res_conversation_rounds = conversation_rounds st, res_all_reasoning = all_reasoning st,
      res_tool_calls = tool_calls_made st, res_total_rounds = round_index,
      res_complete_reasoning_log = Some (py_join [10, 10] (all_reasoning st)),
      res_history = messages st\<rparr>"

definition budget_exhausted :: "int \<Rightarrow> chat_state \<Rightarrow> chat_result" where
  "budget_exhausted max_rounds st =
     \<lparr>res_success = False, res_error = Some (MAX_ROUNDS_REACHED @ str_int max_rounds),
      res_final_answer = BUDGET_ANSWER,
      res_conversation_rounds = conversation_rounds st, res_all_reasoning = all_reasoning st,
      res_tool_calls = tool_calls_made st, res_total_rounds = max_rounds,
      res_complete_reasoning_log = Some (py_join [10, 10] (all_reasoning st)),
      res_history = messages st\<rparr>"

text \<open>
  The part of a round before the dispatch on the parsed type: the reasoning is logged
  when it is not empty, the round is recorded, and the reply (without the reasoning) is
  appended to the history.
\<close>

definition record_reply :: "int \<Rightarrow> pystr \<Rightarrow> pystr \<Rightarrow> parsed_reply \<Rightarrow> chat_state \<Rightarrow> chat_state" where
  "record_reply round_index reasoning_content content parsed st =
     st\<lparr>all_reasoning :=
           (if reasoning_content \<noteq> []
            then all_reasoning st @ [reasoning_entry round_index reasoning_content]
            else all_reasoning st),
        conversation_rounds := conversation_rounds st @
           [\<lparr>rd_round_number = round_index, rd_reasoning_content = reasoning_content,
             rd_response_content = content, rd_parsed_analysis = p_analysis parsed,
             rd_parsed_type = p_type parsed, rd_tool_call_params = p_tool_call parsed,
             rd_final_answer = p_final_answer parsed, rd_errors = p_errors parsed,
             rd_tool_execution_result = None, rd_tool_success = None\<rparr>],
        messages := messages st @ [(Assistant, content)]\<rparr>"

definition note_tool_outcome :: "pystr \<Rightarrow> bool \<Rightarrow> round_data list \<Rightarrow> round_data list" where
  "note_tool_outcome outcome ok rounds =
     (case rev rounds of
        [] \<Rightarrow> rounds
      | last_round # earlier \<Rightarrow>
          rev earlier @ [last_round\<lparr>rd_tool_execution_result := Some outcome,
                                      rd_tool_success := Some ok\<rparr>])"

text \<open>
  The loop. The completion model maps the history to the reasoning text and the reply
  (each the empty string when absent), or raises; a response that is returned is taken to
  hold a first choice with a message, as the type of the client has it. The tool maps the
  action parameters to its response text, or raises. \<open>chat_rounds\<close> runs the rounds that are left, one model
  call per round. The call of the model and the call of the tool are inside handlers; the
  call of the parser is not, so an exception that leaves the parser leaves the driver:
  the result is \<open>Inr\<close> of the dictionary returned, or \<open>Inl\<close> of the message of the exception
  that propagates to the caller.
\<close>

type_synonym reasoner = "(role \<times> pystr) list \<Rightarrow> pystr + pystr \<times> pystr"

type_synonym tool = "(pystr \<times> json) list option \<Rightarrow> pystr + pystr"

fun chat_rounds ::
  "reasoner \<Rightarrow> tool \<Rightarrow> decoder \<Rightarrow> int \<Rightarrow> nat \<Rightarrow> int \<Rightarrow> chat_state \<Rightarrow> pystr + chat_result" where
  "chat_rounds llm run_tool json_loads max_rounds 0 round_index st =
     Inr (budget_exhausted max_rounds st)"
| "chat_rounds llm run_tool json_loads max_rounds (Suc rounds_left) round_index st =
     (case llm (messages st) of
        Inl e \<Rightarrow> Inr (model_call_failed e round_index st)
      | Inr (reasoning_content, content) \<Rightarrow>
          (case parse_reasoner_output json_loads content reasoning_content of
             Inl e \<Rightarrow> Inl e
           | Inr parsed \<Rightarrow>
          (let st1 = record_reply round_index reasoning_content content parsed st
           in case p_type parsed of
                TOOL_CALL \<Rightarrow>
                  (case run_tool (p_tool_call parsed) of
                     Inr tool_response \<Rightarrow>
                       chat_rounds llm run_tool json_loads max_rounds rounds_left (round_index + 1)
                         (st1\<lparr>tool_calls_made := tool_calls_made st1 @
                                 [\<lparr>tc_round = round_index, tc_params = p_tool_call parsed,
                                   tc_result = Some tool_response, tc_success = True,
                                   tc_error = None\<rparr>],
                              conversation_rounds :=
                                 note_tool_outcome tool_response True (conversation_rounds st1),
                              messages := messages st1 @ [(User, tool_feedback tool_response)]\<rparr>)
                   | Inl e \<Rightarrow>
                       chat_rounds llm run_tool json_loads max_rounds rounds_left (round_index + 1)
                         (st1\<lparr>tool_calls_made := tool_calls_made st1 @
                                 [\<lparr>tc_round = round_index, tc_params = p_tool_call parsed,
                                   tc_result = None, tc_success = False, tc_error = Some e\<rparr>],
                              conversation_rounds :=
                                 note_tool_outcome (TOOL_CALL_FAILED @ e) False (conversation_rounds st1),
                              messages := messages st1 @
                                 [(User, retry_feedback (TOOL_CALL_FAILED @ e))]\<rparr>))
              | FINAL_ANSWER \<Rightarrow>
                  Inr (final_answer_given (case p_final_answer parsed of None \<Rightarrow> [] | Some a \<Rightarrow> a)
                         round_index st1)
              | _ \<Rightarrow>
                  chat_rounds llm run_tool json_loads max_rounds rounds_left (round_index + 1)
                    (st1\<lparr>messages := messages st1 @ [(User, corrective_prompt (p_errors parsed))]\<rparr>))))"

text \<open>
  \<open>range(1, max_rounds + 1)\<close> has \<open>nat max_rounds\<close> elements. The enhanced system prompt is
  built from fixed texts before the loop and is a parameter here.
\<close>

definition chat_with_deepseek_reasoner ::
  "reasoner \<Rightarrow> tool \<Rightarrow> decoder \<Rightarrow> pystr \<Rightarrow> pystr \<Rightarrow> int \<Rightarrow> pystr + chat_result" where
  "chat_with_deepseek_reasoner llm run_tool json_loads enhanced_system_prompt user_question max_rounds =
     chat_rounds llm run_tool json_loads max_rounds (nat max_rounds) 1
       \<lparr>messages = [(System, enhanced_system_prompt), (User, user_question)],
        conversation_rounds = [], all_reasoning = [], tool_calls_made = []\<rparr>"

text \<open>
  A reply is handled as malformed when the parser returns for it the type \<open>format_error\<close>
  or \<open>error\<close>. \<open>malformed_trace\<close> is what \<open>n\<close> such rounds add to a history: each round the
  reply of the model and the corrective prompt for its errors.
\<close>

definition malformed :: "decoder \<Rightarrow> pystr \<Rightarrow> bool" where
  "malformed json_loads content =
     (case parse_reasoner_output json_loads content [] of
        Inl e \<Rightarrow> False
      | Inr parsed \<Rightarrow>
          (case p_type parsed of
             FORMAT_ERROR \<Rightarrow> True
           | ERROR \<Rightarrow> True
           | _ \<Rightarrow> False))"

fun malformed_trace ::
  "reasoner \<Rightarrow> decoder \<Rightarrow> nat \<Rightarrow> (role \<times> pystr) list \<Rightarrow> (role \<times> pystr) list" where
  "malformed_trace llm json_loads 0 history = []"
| "malformed_trace llm json_loads (Suc n) history =
     (case llm history of
        Inl e \<Rightarrow> []
      | Inr (reasoning_content, content) \<Rightarrow>
          (case parse_reasoner_output json_loads content reasoning_content of
             Inl e \<Rightarrow> []
           | Inr parsed \<Rightarrow>
               (let exchange = [(Assistant, content), (User, corrective_prompt (p_errors parsed))]
                in exchange @ malformed_trace llm json_loads n (history @ exchange))))"

text \<open>
  The model answers every history with a reply (it never raises) that the parser handles
  as malformed.
\<close>

definition always_malformed :: "reasoner \<Rightarrow> decoder \<Rightarrow> bool" where
  "always_malformed llm jl \<longleftrightarrow>
     (\<forall>history. \<exists>reasoning content. llm history = Inr (reasoning, content) \<and> malformed jl content)"

text \<open>
  The message the loop appends after a reply that is not a final answer: the tool feedback
  or the retry feedback after a tool call, the corrective prompt otherwise.
\<close>

definition feedback_for :: "tool \<Rightarrow> parsed_reply \<Rightarrow> pystr" where
  "feedback_for run_tool parsed =
     (case p_type parsed of
        TOOL_CALL \<Rightarrow>
          (case run_tool (p_tool_call parsed) of
             Inr tool_response \<Rightarrow> tool_feedback tool_response
           | Inl e \<Rightarrow> retry_feedback (TOOL_CALL_FAILED @ e))
      | _ \<Rightarrow> corrective_prompt (p_errors parsed))"

text \<open>The replies of the model that a history holds, in order.\<close>

definition assistant_replies :: "(role \<times> pystr) list \<Rightarrow> pystr list" where
  "assistant_replies history = map snd (filter (\<lambda>m. fst m = Assistant) history)"

text \<open>
  A reply that is an action block and nothing else, whose object has the one member \<open>n\<close>
  with an integer literal of the given number of digits (all the digit 1, code point 49):
  the marker, a space, \<open>{"n": 11...1}\<close>. \<open>long_integer_block\<close> is the text the pattern of the
  parser hands to the decoder for it.
\<close>

definition long_integer_block :: "nat \<Rightarrow> pystr" where
  "long_integer_block digits = [123, 34, 110, 34, 58, 32] @ replicate digits 49 @ [125]"

definition long_integer_action :: "nat \<Rightarrow> pystr" where
  "long_integer_action digits = TOOL_CALL_MARK @ [32] @ long_integer_block digits"
section \<open>Range filtering and expansion: proofs\<close>

subsection \<open>The two loops are filters\<close>

lemma fold_min_Min: "fold min ps (p::int) = Min (set (p # ps))"
proof (induction ps arbitrary: p)
  case Nil
  show ?case by simp
next
  case (Cons q qs)
  have "Min (set (min q p # qs)) = Min (insert p (insert q (set qs)))"
    by (cases "qs = []") (simp_all add: min.commute min.left_commute min.assoc)
  with Cons show ?case by simp
qed

lemma fold_max_Max: "fold max ps (p::int) = Max (set (p # ps))"
proof (induction ps arbitrary: p)
  case Nil
  show ?case by simp
next
  case (Cons q qs)
  have "Max (set (max q p # qs)) = Max (insert p (insert q (set qs)))"
    by (cases "qs = []") (simp_all add: max.commute max.left_commute max.assoc)
  with Cons show ?case by simp
qed

lemma lower_bound_fold_max:
  "list_ex (in_bounds lo None) (p # ps) \<longleftrightarrow> \<not> lt_bound (fold max ps p) lo"
proof (cases lo)
  case None
  then show ?thesis by (simp add: in_bounds_def lt_bound_def)
next
  case (Some l)
  have "(\<exists>x\<in>set (p # ps). l \<le> x) \<longleftrightarrow> l \<le> Max (set (p # ps))"
    by (subst Max_ge_iff) auto
  with Some show ?thesis
    by (simp add: in_bounds_def lt_bound_def fold_max_Max list_ex_iff not_less del: set_simps)
qed

lemma upper_bound_fold_min:
  "list_ex (in_bounds None hi) (p # ps) \<longleftrightarrow> \<not> gt_bound (fold min ps p) hi"
proof (cases hi)
  case None
  then show ?thesis by (simp add: in_bounds_def gt_bound_def)
next
  case (Some h)
  have "(\<exists>x\<in>set (p # ps). x \<le> h) \<longleftrightarrow> Min (set (p # ps)) \<le> h"
    by (subst Min_le_iff) auto
  with Some show ?thesis
    by (simp add: in_bounds_def gt_bound_def fold_min_Min list_ex_iff not_less del: set_simps)
qed

lemma chunk_id_pass_filter:
  "chunk_id_pass idLo idHi chunks = filter (id_keep idLo idHi) chunks"
  by (induction chunks)
     (auto simp: id_keep_def in_bounds_def lt_bound_def gt_bound_def split: option.splits)

lemma page_pass_filter:
  "page_pass pageLo pageHi chunks =
     filter (\<lambda>c. unparsable c \<or> page_span_meets pageLo pageHi c) chunks"
proof (induction chunks)
  case Nil
  show ?case by simp
next
  case (Cons c cs)
  show ?case
  proof (cases "extract_page_numbers_from_string (page_num c)")
    case Nil
    with Cons show ?thesis by (simp add: unparsable_def)
  next
    case (Cons p ps)
    with Cons.IH show ?thesis
      using lower_bound_fold_max [of pageLo p ps] upper_bound_fold_min [of pageHi p ps]
      by (simp add: unparsable_def page_span_meets_def Let_def)
  qed
qed

lemma id_keep_unbounded: "id_keep None None c"
  by (simp add: id_keep_def in_bounds_def)

lemma page_keep_unbounded: "unparsable c \<or> page_span_meets None None c"
  by (cases "extract_page_numbers_from_string (page_num c)")
     (simp_all add: unparsable_def page_span_meets_def in_bounds_def)

lemma apply_range_limitations_filter:
  "apply_range_limitations chunks pageLo pageHi idLo idHi =
     filter (\<lambda>c. unparsable c \<or> page_span_meets pageLo pageHi c)
       (filter (id_keep idLo idHi) chunks)"
proof -
  have ids: "(if idLo \<noteq> None \<or> idHi \<noteq> None then chunk_id_pass idLo idHi chunks else chunks)
               = filter (id_keep idLo idHi) chunks"
    by (auto simp: chunk_id_pass_filter id_keep_unbounded)
  have pages: "(if pageLo \<noteq> None \<or> pageHi \<noteq> None then page_pass pageLo pageHi xs else xs)
               = filter (\<lambda>c. unparsable c \<or> page_span_meets pageLo pageHi c) xs" for xs
    using page_keep_unbounded by (auto simp: page_pass_filter)
  show ?thesis
    unfolding apply_range_limitations_def Let_def ids pages by simp
qed


subsection \<open>Evaluation of the concrete examples\<close>
lemmas py_eval = asc_def py_int_def py_strip_def py_isspace_def decimal_value_def nd_blocks_def
  extract_page_numbers_from_string_def

lemma pages_1_10: "extract_page_numbers_from_string (asc ''1-10'') = [1, 10]"
  by (simp add: py_eval)

lemma pages_4: "extract_page_numbers_from_string (asc ''4'') = [4]"
  by (simp add: py_eval)

lemma pages_7_8: "extract_page_numbers_from_string (asc ''7-8'') = [7, 8]"
  by (simp add: py_eval)

lemma pages_na: "extract_page_numbers_from_string (asc ''n/a'') = []"
  by (simp add: py_eval)

lemmas chunk_eval = mk_chunk_def pages_1_10 pages_4 pages_7_8 pages_na unparsable_def
  page_span_meets_def page_set_meets_def id_keep_def in_bounds_def

subsection \<open>Claims about \<open>apply_range_limitations\<close>\<close>

text \<open>
  Claim C1. For every list of chunks and all optional bounds, the range filter is the
  chunk\_id filter followed by the page filter on its result, each pass keeping the order
  of the list. A chunk is kept iff its chunk\_id satisfies every id bound that is given and,
  in the page pass, either its label yields no page number (an unparsable label never
  excludes a chunk) or the span of its parsed pages overlaps the page range: some parsed
  page is at least \<open>pageLo\<close> and some parsed page is at most \<open>pageHi\<close>, for whichever of
  the two is given. An absent bound imposes no constraint. The code compares the greatest
  and the least parsed page with the bounds, so it is the span of the pages that must
  meet the range, not the set of pages itself.
\<close>
theorem range_filter_two_passes:
  "apply_range_limitations chunks pageLo pageHi idLo idHi =
     filter (\<lambda>c. unparsable c \<or> page_span_meets pageLo pageHi c) (filter (id_keep idLo idHi) chunks)
   \<and> apply_range_limitations chunks pageLo pageHi idLo idHi =
       apply_range_limitations (apply_range_limitations chunks None None idLo idHi) pageLo pageHi None None
   \<and> (c \<in> set (apply_range_limitations chunks pageLo pageHi idLo idHi) \<longleftrightarrow>
        c \<in> set chunks \<and> id_keep idLo idHi c \<and> (unparsable c \<or> page_span_meets pageLo pageHi c))"
proof -
  have keep_all: "filter (\<lambda>c. unparsable c \<or> page_span_meets None None c) xs = xs" for xs
    using page_keep_unbounded by simp
  show ?thesis
    by (simp add: apply_range_limitations_filter keep_all id_keep_unbounded)
qed

theorem range_filter_two_passes_witness:
  "apply_range_limitations
     [mk_chunk 1 (asc ''4'') [], mk_chunk 2 (asc ''n/a'') [], mk_chunk 3 (asc ''7-8'') [],
      mk_chunk 9 (asc ''4'') []] (Some 3) (Some 5) (Some 1) (Some 3)
   = [mk_chunk 1 (asc ''4'') [], mk_chunk 2 (asc ''n/a'') []]"
  using range_filter_two_passes
    [of "[mk_chunk 1 (asc ''4'') [], mk_chunk 2 (asc ''n/a'') [], mk_chunk 3 (asc ''7-8'') [],
          mk_chunk 9 (asc ''4'') []]" "Some 3" "Some 5" "Some 1" "Some 3", THEN conjunct1]
  by (simp add: chunk_eval)

text \<open>
  The claim as worded, with the page set itself intersecting the range, fails: the label
  \<open>1-10\<close> parses to the pages 1 and 10, neither of which lies in the range from 3 to 5, and
  the chunk is kept (10 is not below 3 and 1 is not above 5).
\<close>
theorem range_filter_page_set_counterexample:
  "apply_range_limitations [mk_chunk 7 (asc ''1-10'') []] (Some 3) (Some 5) None None
     = [mk_chunk 7 (asc ''1-10'') []]
   \<and> extract_page_numbers_from_string (page_num (mk_chunk 7 (asc ''1-10'') [])) = [1, 10]
   \<and> \<not> unparsable (mk_chunk 7 (asc ''1-10'') [])
   \<and> \<not> page_set_meets (Some 3) (Some 5) (mk_chunk 7 (asc ''1-10'') [])"
  by (simp add: apply_range_limitations_filter chunk_eval)

text \<open>
  Claim C8. For every chunk list and every combination of bounds (in particular those
  with lower bound at most upper bound), the result is a sublist of the input, every
  returned chunk has its chunk\_id within the id bounds that were given, and every returned
  chunk whose label yields at least one page number has a page span that meets the page
  bounds that were given. A returned chunk whose label yields no page number is not
  constrained by the page bounds.
\<close>
theorem range_filter_sound:
  "subseq (apply_range_limitations C pageLo pageHi idLo idHi) C
   \<and> set (apply_range_limitations C pageLo pageHi idLo idHi) \<subseteq> set C
   \<and> (\<forall>c \<in> set (apply_range_limitations C pageLo pageHi idLo idHi).
        id_keep idLo idHi c \<and> (\<not> unparsable c \<longrightarrow> page_span_meets pageLo pageHi c))"
  by (auto simp: apply_range_limitations_filter intro: subseq_filter_left subseq_order.order_trans)

theorem range_filter_sound_witness:
  "(1::int) \<le> 3 \<and> (3::int) \<le> 5
   \<and> apply_range_limitations
       [mk_chunk 1 (asc ''4'') [], mk_chunk 2 (asc ''n/a'') [], mk_chunk 3 (asc ''7-8'') [],
        mk_chunk 9 (asc ''4'') []] (Some 3) (Some 5) (Some 1) (Some 3)
     = [mk_chunk 1 (asc ''4'') [], mk_chunk 2 (asc ''n/a'') []]
   \<and> id_keep (Some 1) (Some 3) (mk_chunk 1 (asc ''4'') [])
   \<and> \<not> unparsable (mk_chunk 1 (asc ''4'') [])
   \<and> page_span_meets (Some 3) (Some 5) (mk_chunk 1 (asc ''4'') [])"
  using range_filter_sound
    [of "[mk_chunk 1 (asc ''4'') [], mk_chunk 2 (asc ''n/a'') [], mk_chunk 3 (asc ''7-8'') [],
          mk_chunk 9 (asc ''4'') []]" "Some 3" "Some 5" "Some 1" "Some 3"]
  by (simp add: apply_range_limitations_filter chunk_eval)

text \<open>
  Without the two restrictions the claim fails: under the page range from 3 to 5 the
  chunk labelled \<open>n/a\<close> (no page number) and the chunk labelled \<open>1-10\<close> (pages 1 and 10)
  are both returned, and neither has a page within the range.
\<close>
theorem range_filter_page_bound_counterexample:
  "apply_range_limitations [mk_chunk 1 (asc ''n/a'') [], mk_chunk 2 (asc ''1-10'') []]
     (Some 3) (Some 5) None None
     = [mk_chunk 1 (asc ''n/a'') [], mk_chunk 2 (asc ''1-10'') []]
   \<and> \<not> page_set_meets (Some 3) (Some 5) (mk_chunk 1 (asc ''n/a'') [])
   \<and> \<not> page_set_meets (Some 3) (Some 5) (mk_chunk 2 (asc ''1-10'') [])"
  by (simp add: apply_range_limitations_filter chunk_eval)


subsection \<open>Claims about \<open>expand_chunks\<close> and \<open>merge_chunks_text\<close>\<close>
lemma select_range_filter:
  "select_range lo hi chunks = filter (\<lambda>c. lo \<le> chunk_id c \<and> chunk_id c \<le> hi) chunks"
  by (induction chunks) simp_all

lemma expand_chunks_noop: "expand_chunks targets all_chunks 0 0 = targets"
  by (simp add: expand_chunks_def)

lemma expand_chunks_window:
  assumes "targets \<noteq> []" and "\<not> (before = 0 \<and> after = 0)"
  shows "expand_chunks targets all_chunks before after =
           sort_key chunk_id
             (filter (\<lambda>c. Min (chunk_id ` set targets) - before \<le> chunk_id c \<and>
                          chunk_id c \<le> Max (chunk_id ` set targets) + after) all_chunks)"
proof -
  obtain t ts where targets: "targets = t # ts"
    using assms(1) by (cases targets) auto
  have "fold min (map chunk_id ts) (chunk_id t) = Min (chunk_id ` set targets)"
    by (simp add: fold_min_Min targets)
  moreover have "fold max (map chunk_id ts) (chunk_id t) = Max (chunk_id ` set targets)"
    by (simp add: fold_max_Max targets)
  ultimately show ?thesis
    using assms(2) by (auto simp: expand_chunks_def targets select_range_filter Let_def)
qed

text \<open>
  Claim C2. For a non-empty target list and margins \<open>before, after \<ge> 0\<close>: when both margins
  are zero the call returns the targets unchanged; otherwise it returns exactly the chunks
  of the document's list whose chunk\_id lies in the closed interval from the least target
  id minus \<open>before\<close> to the greatest target id plus \<open>after\<close> (each as often as the list holds
  it), sorted ascending by chunk\_id, chunks of equal id staying in list order. The targets
  need not be drawn from the document's list for this to hold.
\<close>
theorem expand_chunks_interval:
  assumes "targets \<noteq> []" and "0 \<le> before" and "0 \<le> after"
  shows "(before = 0 \<and> after = 0 \<longrightarrow> expand_chunks targets all_chunks before after = targets)
       \<and> (\<not> (before = 0 \<and> after = 0) \<longrightarrow>
            expand_chunks targets all_chunks before after =
              sort_key chunk_id
                (filter (\<lambda>c. Min (chunk_id ` set targets) - before \<le> chunk_id c \<and>
                             chunk_id c \<le> Max (chunk_id ` set targets) + after) all_chunks)
            \<and> mset (expand_chunks targets all_chunks before after) =
                filter_mset (\<lambda>c. Min (chunk_id ` set targets) - before \<le> chunk_id c \<and>
                                 chunk_id c \<le> Max (chunk_id ` set targets) + after) (mset all_chunks)
            \<and> sorted (map chunk_id (expand_chunks targets all_chunks before after)))"
proof (intro conjI impI)
  assume "before = 0 \<and> after = 0"
  then show "expand_chunks targets all_chunks before after = targets"
    by (simp add: expand_chunks_noop)
next
  assume moved: "\<not> (before = 0 \<and> after = 0)"
  note w = expand_chunks_window [OF assms(1) moved, of all_chunks]
  show "expand_chunks targets all_chunks before after =
          sort_key chunk_id
            (filter (\<lambda>c. Min (chunk_id ` set targets) - before \<le> chunk_id c \<and>
                         chunk_id c \<le> Max (chunk_id ` set targets) + after) all_chunks)"
    by (rule w)
  show "mset (expand_chunks targets all_chunks before after) =
          filter_mset (\<lambda>c. Min (chunk_id ` set targets) - before \<le> chunk_id c \<and>
                           chunk_id c \<le> Max (chunk_id ` set targets) + after) (mset all_chunks)"
    by (simp add: w)
  show "sorted (map chunk_id (expand_chunks targets all_chunks before after))"
    by (simp add: w sorted_sort_key)
qed

lemma expand_eval:
  "expand_chunks [mk_chunk 5 [] (asc ''e''), mk_chunk 3 [] (asc ''c'')]
     [mk_chunk 7 [] (asc ''g''), mk_chunk 6 [] (asc ''f''), mk_chunk 1 [] (asc ''a''),
      mk_chunk 3 [] (asc ''c''), mk_chunk 5 [] (asc ''e''), mk_chunk 2 [] (asc ''b'')] 1 1
   = [mk_chunk 2 [] (asc ''b''), mk_chunk 3 [] (asc ''c''), mk_chunk 5 [] (asc ''e''),
      mk_chunk 6 [] (asc ''f'')]"
  by (simp add: expand_chunks_def mk_chunk_def)

theorem expand_chunks_interval_witness:
  "[mk_chunk 5 [] (asc ''e''), mk_chunk 3 [] (asc ''c'')] \<noteq> [] \<and> (0::int) \<le> 1
   \<and> \<not> ((1::int) = 0 \<and> (1::int) = 0)
   \<and> expand_chunks [mk_chunk 5 [] (asc ''e''), mk_chunk 3 [] (asc ''c'')]
     [mk_chunk 7 [] (asc ''g''), mk_chunk 6 [] (asc ''f''), mk_chunk 1 [] (asc ''a''),
      mk_chunk 3 [] (asc ''c''), mk_chunk 5 [] (asc ''e''), mk_chunk 2 [] (asc ''b'')] 1 1
   = [mk_chunk 2 [] (asc ''b''), mk_chunk 3 [] (asc ''c''), mk_chunk 5 [] (asc ''e''),
      mk_chunk 6 [] (asc ''f'')]
   \<and> sorted (map chunk_id (expand_chunks [mk_chunk 5 [] (asc ''e''), mk_chunk 3 [] (asc ''c'')]
     [mk_chunk 7 [] (asc ''g''), mk_chunk 6 [] (asc ''f''), mk_chunk 1 [] (asc ''a''),
      mk_chunk 3 [] (asc ''c''), mk_chunk 5 [] (asc ''e''), mk_chunk 2 [] (asc ''b'')] 1 1))
   \<and> expand_chunks [mk_chunk 5 [] (asc ''e''), mk_chunk 3 [] (asc ''c'')]
     [mk_chunk 7 [] (asc ''g''), mk_chunk 6 [] (asc ''f''), mk_chunk 1 [] (asc ''a'')] 0 0
   = [mk_chunk 5 [] (asc ''e''), mk_chunk 3 [] (asc ''c'')]"
proof -
  have nonempty: "[mk_chunk 5 [] (asc ''e''), mk_chunk 3 [] (asc ''c'')] \<noteq> []" by simp
  have one: "(0::int) \<le> 1" by simp
  have zero: "(0::int) \<le> 0" by simp
  note moved = expand_chunks_interval [OF nonempty one one,
    of "[mk_chunk 7 [] (asc ''g''), mk_chunk 6 [] (asc ''f''), mk_chunk 1 [] (asc ''a''),
         mk_chunk 3 [] (asc ''c''), mk_chunk 5 [] (asc ''e''), mk_chunk 2 [] (asc ''b'')]",
    THEN conjunct2]
  note still = expand_chunks_interval [OF nonempty zero zero,
    of "[mk_chunk 7 [] (asc ''g''), mk_chunk 6 [] (asc ''f''), mk_chunk 1 [] (asc ''a'')]",
    THEN conjunct1]
  from moved have "sorted (map chunk_id (expand_chunks [mk_chunk 5 [] (asc ''e''), mk_chunk 3 [] (asc ''c'')]
     [mk_chunk 7 [] (asc ''g''), mk_chunk 6 [] (asc ''f''), mk_chunk 1 [] (asc ''a''),
      mk_chunk 3 [] (asc ''c''), mk_chunk 5 [] (asc ''e''), mk_chunk 2 [] (asc ''b'')] 1 1))"
    by simp
  moreover from still have "expand_chunks [mk_chunk 5 [] (asc ''e''), mk_chunk 3 [] (asc ''c'')]
     [mk_chunk 7 [] (asc ''g''), mk_chunk 6 [] (asc ''f''), mk_chunk 1 [] (asc ''a'')] 0 0
   = [mk_chunk 5 [] (asc ''e''), mk_chunk 3 [] (asc ''c'')]"
    by simp
  ultimately show ?thesis
    using expand_eval by simp
qed

text \<open>
  Claim C9. Expanding an expansion with zero margins changes nothing, and merging the
  zero-margin expansion of a target list gives the same text as merging the list itself.
\<close>
theorem expand_idempotent_merge_noop:
  "expand_chunks (expand_chunks T A b a) A 0 0 = expand_chunks T A b a
   \<and> merge_chunks_text (expand_chunks T A 0 0) = merge_chunks_text T"
  by (simp add: expand_chunks_noop)

theorem expand_idempotent_merge_noop_witness:
  "expand_chunks (expand_chunks [mk_chunk 5 [] (asc ''e''), mk_chunk 3 [] (asc ''c'')]
       [mk_chunk 7 [] (asc ''g''), mk_chunk 6 [] (asc ''f''), mk_chunk 1 [] (asc ''a''),
        mk_chunk 3 [] (asc ''c''), mk_chunk 5 [] (asc ''e''), mk_chunk 2 [] (asc ''b'')] 1 1)
     [mk_chunk 7 [] (asc ''g''), mk_chunk 6 [] (asc ''f''), mk_chunk 1 [] (asc ''a''),
      mk_chunk 3 [] (asc ''c''), mk_chunk 5 [] (asc ''e''), mk_chunk 2 [] (asc ''b'')] 0 0
   = [mk_chunk 2 [] (asc ''b''), mk_chunk 3 [] (asc ''c''), mk_chunk 5 [] (asc ''e''),
      mk_chunk 6 [] (asc ''f'')]
   \<and> merge_chunks_text (expand_chunks [mk_chunk 5 [] (asc ''e''), mk_chunk 3 [] (asc ''c'')]
       [mk_chunk 7 [] (asc ''g'')] 0 0) = asc ''ce''"
  using expand_idempotent_merge_noop
    [of "[mk_chunk 5 [] (asc ''e''), mk_chunk 3 [] (asc ''c'')]"
        "[mk_chunk 7 [] (asc ''g''), mk_chunk 6 [] (asc ''f''), mk_chunk 1 [] (asc ''a''),
          mk_chunk 3 [] (asc ''c''), mk_chunk 5 [] (asc ''e''), mk_chunk 2 [] (asc ''b'')]" 1 1]
    expand_idempotent_merge_noop
    [of "[mk_chunk 5 [] (asc ''e''), mk_chunk 3 [] (asc ''c'')]" "[mk_chunk 7 [] (asc ''g'')]" 0 0]
    expand_eval
  by (simp add: merge_chunks_text_def mk_chunk_def asc_def)

section \<open>Hybrid merge: proofs\<close>

subsection \<open>A closed form of the two loops\<close>

lemma ids_unseen: "ids_of (unseen S xs) = ids_of xs - S"
  by (induction S xs rule: unseen.induct) (auto simp: ids_of_def)

lemma distinct_unseen: "distinct (map global_id (unseen S xs))"
proof (induction S xs rule: unseen.induct)
  case (1 S)
  show ?case by simp
next
  case (2 S x xs)
  have "global_id x \<notin> ids_of (unseen (insert (global_id x) S) xs)"
    by (simp add: ids_unseen)
  with 2 show ?case by (simp add: ids_of_def)
qed

lemma unseen_first:
  "x \<in> set (unseen S xs) \<Longrightarrow> first_with_id (global_id x) xs = Some x"
proof (induction S xs rule: unseen.induct)
  case (1 S)
  then show ?case by simp
next
  case (2 S y ys)
  show ?case
  proof (cases "global_id y \<in> S")
    case True
    with 2 have mem: "x \<in> set (unseen S ys)" by simp
    then have "global_id x \<in> ids_of (unseen S ys)" by (auto simp: ids_of_def)
    then have "global_id x \<noteq> global_id y" using True by (auto simp: ids_unseen)
    with 2 True mem show ?thesis by (simp add: first_with_id_def)
  next
    case False
    show ?thesis
    proof (cases "x = y")
      case True
      then show ?thesis by (simp add: first_with_id_def)
    next
      case neq: False
      with 2 False have mem: "x \<in> set (unseen (insert (global_id y) S) ys)" by simp
      then have "global_id x \<in> ids_of (unseen (insert (global_id y) S) ys)"
        by (auto simp: ids_of_def)
      then have "global_id x \<noteq> global_id y" by (auto simp: ids_unseen)
      with 2 False mem show ?thesis by (simp add: first_with_id_def)
    qed
  qed
qed

lemma vector_loop_closed:
  "vector_loop vs A S = (A @ map (tag_with (asc ''vector'')) (unseen S vs), S \<union> ids_of vs)"
  by (induction vs arbitrary: A S) (auto simp: tag_with_def ids_of_def)

lemma global_id_add_keyword [simp]: "global_id (add_keyword x) = global_id x"
  by (simp add: add_keyword_def)

lemma add_keyword_idem [simp]: "add_keyword (add_keyword x) = add_keyword x"
  by (simp add: add_keyword_def)

lemma add_keyword_tag_keyword [simp]:
  "add_keyword (tag_with (asc ''keyword'') x) = tag_with (asc ''keyword'') x"
  by (simp add: add_keyword_def tag_with_def)

lemma global_id_tag_with [simp]: "global_id (tag_with t x) = global_id x"
  by (simp add: tag_with_def)

lemma mark_keyword_map:
  "distinct (map global_id A) \<Longrightarrow>
   mark_keyword g A = map (\<lambda>x. if global_id x = g then add_keyword x else x) A"
proof (induction A)
  case Nil
  show ?case by simp
next
  case (Cons a A)
  show ?case
  proof (cases "global_id a = g")
    case True
    have "\<forall>x\<in>set A. global_id x \<noteq> g"
    proof
      fix x assume "x \<in> set A"
      then have "global_id x \<in> set (map global_id A)" by simp
      moreover have "g \<notin> set (map global_id A)" using Cons.prems True by simp
      ultimately show "global_id x \<noteq> g" by metis
    qed
    then have "map (\<lambda>x. if global_id x = g then add_keyword x else x) A = A"
      by (simp add: map_idI)
    with True show ?thesis by (simp add: add_keyword_def)
  next
    case False
    with Cons show ?thesis by simp
  qed
qed

lemma keyword_loop_closed:
  "distinct (map global_id A) \<Longrightarrow> S = ids_of A \<Longrightarrow>
   keyword_loop ks A S =
     (map (\<lambda>x. if global_id x \<in> ids_of ks then add_keyword x else x) A
        @ map (tag_with (asc ''keyword'')) (unseen S ks),
      S \<union> ids_of ks)"
proof (induction ks arbitrary: A S)
  case Nil
  then show ?case by (simp add: ids_of_def)
next
  case (Cons k ks)
  show ?case
  proof (cases "global_id k \<in> S")
    case False
    let ?A = "A @ [tag_with (asc ''keyword'') k]"
    have d: "distinct (map global_id ?A)"
      using Cons.prems False by (auto simp: ids_of_def)
    have s: "insert (global_id k) S = ids_of ?A"
      using Cons.prems by (auto simp: ids_of_def)
    have same: "map (\<lambda>x. if global_id x \<in> ids_of ks then add_keyword x else x) A
                = map (\<lambda>x. if global_id x \<in> ids_of (k # ks) then add_keyword x else x) A"
    proof (rule map_cong [OF refl])
      fix x assume "x \<in> set A"
      then have "global_id x \<in> S" using Cons.prems by (simp add: ids_of_def)
      with False have "global_id x \<noteq> global_id k" by metis
      then show "(if global_id x \<in> ids_of ks then add_keyword x else x)
                 = (if global_id x \<in> ids_of (k # ks) then add_keyword x else x)"
        by (simp add: ids_of_def)
    qed
    have "keyword_loop (k # ks) A S = keyword_loop ks ?A (insert (global_id k) S)"
      using False by (simp add: tag_with_def)
    also have "\<dots> = (map (\<lambda>x. if global_id x \<in> ids_of ks then add_keyword x else x) ?A
                       @ map (tag_with (asc ''keyword'')) (unseen (insert (global_id k) S) ks),
                     insert (global_id k) S \<union> ids_of ks)"
      by (rule Cons.IH [OF d s])
    finally show ?thesis
      using False same by (auto simp: ids_of_def)
  next
    case True
    let ?A = "mark_keyword (global_id k) A"
    have m: "?A = map (\<lambda>x. if global_id x = global_id k then add_keyword x else x) A"
      using Cons.prems by (simp add: mark_keyword_map)
    have ids: "map global_id ?A = map global_id A"
      unfolding m by (induction A) auto
    have d: "distinct (map global_id ?A)" using Cons.prems ids by simp
    have s: "S = ids_of ?A" using Cons.prems ids by (simp add: ids_of_def)
    have "keyword_loop (k # ks) A S = keyword_loop ks ?A S"
      using True by simp
    also have "\<dots> = (map (\<lambda>x. if global_id x \<in> ids_of ks then add_keyword x else x) ?A
                       @ map (tag_with (asc ''keyword'')) (unseen S ks), S \<union> ids_of ks)"
      by (rule Cons.IH [OF d s])
    finally show ?thesis
      using True unfolding m by (auto simp: ids_of_def)
  qed
qed

lemma merge_closed: "merge_and_deduplicate vs ks = sort_key sort_rank (merged vs ks)"
proof -
  have d: "distinct (map global_id (map (tag_with (asc ''vector'')) (unseen {} vs)))"
    using distinct_unseen [of "{}" vs] by (simp add: comp_def)
  have s: "{} \<union> ids_of vs = ids_of (map (tag_with (asc ''vector'')) (unseen {} vs))"
    using ids_unseen [of "{}" vs] by (simp add: ids_of_def comp_def)
  show ?thesis
    unfolding merge_and_deduplicate_def vector_loop_closed
    using keyword_loop_closed [OF d s, of ks]
    by (simp add: merged_def)
qed


subsection \<open>What the merged list holds\<close>

lemma tags_differ: "asc ''vector'' \<noteq> asc ''keyword''"
  by (simp add: asc_def)

lemma ids_merged: "ids_of (merged vs ks) = ids_of vs \<union> ids_of ks"
proof -
  have "ids_of (merged vs ks) = ids_of (unseen {} vs) \<union> ids_of (unseen (ids_of vs) ks)"
    by (auto simp: merged_def ids_of_def)
  then show ?thesis by (auto simp: ids_unseen)
qed

lemma distinct_merged: "distinct (map global_id (merged vs ks))"
proof -
  have left: "map global_id (map (\<lambda>x. if global_id x \<in> ids_of ks then add_keyword x else x)
                 (map (tag_with (asc ''vector'')) (unseen {} vs))) = map global_id (unseen {} vs)"
    by (induction "unseen {} vs") (auto simp: comp_def)
  have right: "map global_id (map (tag_with (asc ''keyword'')) (unseen (ids_of vs) ks))
                 = map global_id (unseen (ids_of vs) ks)"
    by (simp add: comp_def)
  have "set (map global_id (unseen {} vs)) \<inter> set (map global_id (unseen (ids_of vs) ks)) = {}"
    using ids_unseen [of "{}" vs] ids_unseen [of "ids_of vs" ks] by (auto simp: ids_of_def)
  then show ?thesis
    unfolding merged_def map_append left right
    by (simp add: distinct_unseen)
qed

lemma merged_entry:
  assumes "x \<in> set (merged vs ks)"
  shows "(global_id x \<in> ids_of vs \<and>
          Some x = map_option
            (\<lambda>y. y\<lparr>from_methods :=
                      if global_id x \<in> ids_of ks then [asc ''vector'', asc ''keyword'']
                      else [asc ''vector'']\<rparr>)
            (first_with_id (global_id x) vs))
       \<or> (global_id x \<notin> ids_of vs \<and> global_id x \<in> ids_of ks \<and>
          Some x = map_option (\<lambda>y. y\<lparr>from_methods := [asc ''keyword'']\<rparr>)
            (first_with_id (global_id x) ks))"
proof -
  from assms consider
    (vec) y where "y \<in> set (unseen {} vs)"
      "x = (if global_id (tag_with (asc ''vector'') y) \<in> ids_of ks
            then add_keyword (tag_with (asc ''vector'') y) else tag_with (asc ''vector'') y)"
  | (key) y where "y \<in> set (unseen (ids_of vs) ks)" "x = tag_with (asc ''keyword'') y"
    by (auto simp: merged_def)
  then show ?thesis
  proof cases
    case vec
    have gid: "global_id x = global_id y" using vec(2) by simp
    have "global_id y \<in> ids_of (unseen {} vs)" using vec(1) by (auto simp: ids_of_def)
    then have in_vs: "global_id x \<in> ids_of vs" using gid by (simp add: ids_unseen)
    have first: "first_with_id (global_id x) vs = Some y"
      using unseen_first [OF vec(1)] gid by simp
    have "x = y\<lparr>from_methods :=
                  if global_id x \<in> ids_of ks then [asc ''vector'', asc ''keyword'']
                  else [asc ''vector'']\<rparr>"
      using vec(2) tags_differ by (simp add: tag_with_def add_keyword_def)
    with in_vs first show ?thesis by simp
  next
    case key
    have gid: "global_id x = global_id y" using key(2) by simp
    have "global_id y \<in> ids_of (unseen (ids_of vs) ks)" using key(1) by (auto simp: ids_of_def)
    then have where_: "global_id x \<notin> ids_of vs" "global_id x \<in> ids_of ks"
      using gid by (simp_all add: ids_unseen)
    have first: "first_with_id (global_id x) ks = Some y"
      using unseen_first [OF key(1)] gid by simp
    have "x = y\<lparr>from_methods := [asc ''keyword'']\<rparr>" using key(2) by (simp add: tag_with_def)
    with where_ first show ?thesis by simp
  qed
qed

lemma merged_tags:
  assumes "x \<in> set (merged vs ks)"
  shows "from_methods x =
           (if global_id x \<in> ids_of vs
            then (if global_id x \<in> ids_of ks then [asc ''vector'', asc ''keyword'']
                  else [asc ''vector''])
            else [asc ''keyword''])"
  using merged_entry [OF assms] by (auto simp: map_option_case split: option.splits)

lemma set_merge: "set (merge_and_deduplicate vs ks) = set (merged vs ks)"
  by (simp add: merge_closed)

lemma ids_merge: "ids_of (merge_and_deduplicate vs ks) = ids_of vs \<union> ids_of ks"
  using ids_merged [of vs ks] by (simp add: ids_of_def set_merge)

lemma distinct_merge: "distinct (map global_id (merge_and_deduplicate vs ks))"
proof -
  have "mset (map global_id (merge_and_deduplicate vs ks)) = mset (map global_id (merged vs ks))"
    by (simp add: merge_closed)
  then show ?thesis
    using distinct_merged [of vs ks] by (metis mset_eq_imp_distinct_iff)
qed

lemma once_if_distinct:
  "distinct (map f xs) \<Longrightarrow> g \<in> f ` set xs \<Longrightarrow> length (filter (\<lambda>x. f x = g) xs) = 1"
proof (induction xs)
  case Nil
  then show ?case by simp
next
  case (Cons x xs)
  show ?case
  proof (cases "f x = g")
    case True
    have "\<forall>y\<in>set xs. f y \<noteq> g"
    proof
      fix y assume "y \<in> set xs"
      then have "f y \<in> set (map f xs)" by simp
      moreover have "g \<notin> set (map f xs)" using Cons.prems True by simp
      ultimately show "f y \<noteq> g" by metis
    qed
    then have "filter (\<lambda>x. f x = g) xs = []" by (simp add: filter_empty_conv)
    with True show ?thesis by simp
  next
    case False
    with Cons show ?thesis by auto
  qed
qed

lemma sorted_merge: "sorted (map sort_rank (merge_and_deduplicate vs ks))"
  by (simp add: merge_closed sorted_sort_key)

lemma rank_le_iff:
  "sort_rank x \<le> sort_rank y \<longleftrightarrow>
     (has_vector x \<and> \<not> has_vector y) \<or> (has_vector x = has_vector y \<and> score y \<le> score x)"
  by (auto simp: sort_rank_def has_vector_def less_eq_prod_def)

lemma merge_rank_mono:
  assumes "i < j" and "j < length (merge_and_deduplicate vs ks)"
  shows "sort_rank (merge_and_deduplicate vs ks ! i) \<le> sort_rank (merge_and_deduplicate vs ks ! j)"
proof -
  have "map sort_rank (merge_and_deduplicate vs ks) ! i \<le> map sort_rank (merge_and_deduplicate vs ks) ! j"
    using sorted_merge [of vs ks] assms by (simp add: sorted_iff_nth_mono del: nth_map)
  with assms show ?thesis by simp
qed

lemma merge_buckets:
  assumes "x \<in> set (merge_and_deduplicate vs ks)"
  shows "has_vector x \<noteq> keyword_only x"
proof -
  from assms have "x \<in> set (merged vs ks)" by (simp add: set_merge)
  from merged_tags [OF this] tags_differ show ?thesis
    by (auto simp: has_vector_def keyword_only_def split: if_splits)
qed


subsection \<open>Claims about the hybrid merge\<close>

lemma merge_eval:
  "merge_and_deduplicate
     [mk_hit (asc ''a'') 0.5, mk_hit (asc ''b'') 0.9, mk_hit (asc ''a'') 0.7]
     [mk_hit (asc ''c'') 5, mk_hit (asc ''b'') 3, mk_hit (asc ''c'') 9]
   = [(mk_hit (asc ''b'') 0.9)\<lparr>from_methods := [asc ''vector'', asc ''keyword'']\<rparr>,
      (mk_hit (asc ''a'') 0.5)\<lparr>from_methods := [asc ''vector'']\<rparr>,
      (mk_hit (asc ''c'') 5)\<lparr>from_methods := [asc ''keyword'']\<rparr>]"
  by (simp add: merge_and_deduplicate_def mk_hit_def sort_rank_def asc_def less_eq_prod_def)

text \<open>
  Claim C3. In the list the hybrid merge returns, for any two input lists, every entry
  tagged \<open>vector\<close> stands before every entry tagged only \<open>keyword\<close>, whatever the scores,
  and within each of the two buckets the scores descend. Every entry is in exactly one of
  the two buckets.
\<close>
theorem hybrid_vector_first:
  "(p < length (merge_and_deduplicate vs ks) \<longrightarrow> q < length (merge_and_deduplicate vs ks) \<longrightarrow>
      has_vector (merge_and_deduplicate vs ks ! p) \<longrightarrow>
      keyword_only (merge_and_deduplicate vs ks ! q) \<longrightarrow> p < q)
   \<and> (i < j \<longrightarrow> j < length (merge_and_deduplicate vs ks) \<longrightarrow>
      has_vector (merge_and_deduplicate vs ks ! i) = has_vector (merge_and_deduplicate vs ks ! j) \<longrightarrow>
      score (merge_and_deduplicate vs ks ! j) \<le> score (merge_and_deduplicate vs ks ! i))
   \<and> (x \<in> set (merge_and_deduplicate vs ks) \<longrightarrow> has_vector x \<noteq> keyword_only x)"
proof (intro conjI impI)
  let ?r = "merge_and_deduplicate vs ks"
  assume p: "p < length ?r" and q: "q < length ?r"
    and v: "has_vector (?r ! p)" and k: "keyword_only (?r ! q)"
  have nv: "\<not> has_vector (?r ! q)"
    using merge_buckets [of "?r ! q" vs ks] q k by simp
  show "p < q"
  proof (rule ccontr)
    assume "\<not> p < q"
    then consider "q = p" | "q < p" by linarith
    then show False
    proof cases
      case 1
      with v nv show False by simp
    next
      case 2
      from merge_rank_mono [OF 2 p] have "sort_rank (?r ! q) \<le> sort_rank (?r ! p)" .
      with v nv show False by (simp add: rank_le_iff)
    qed
  qed
next
  let ?r = "merge_and_deduplicate vs ks"
  assume "i < j" and "j < length ?r" and same: "has_vector (?r ! i) = has_vector (?r ! j)"
  then have "sort_rank (?r ! i) \<le> sort_rank (?r ! j)" by (simp add: merge_rank_mono)
  with same show "score (?r ! j) \<le> score (?r ! i)" by (simp add: rank_le_iff)
next
  assume "x \<in> set (merge_and_deduplicate vs ks)"
  then show "has_vector x \<noteq> keyword_only x" by (rule merge_buckets)
qed

theorem hybrid_vector_first_witness:
  "merge_and_deduplicate
     [mk_hit (asc ''a'') 0.5, mk_hit (asc ''b'') 0.9, mk_hit (asc ''a'') 0.7]
     [mk_hit (asc ''c'') 5, mk_hit (asc ''b'') 3, mk_hit (asc ''c'') 9]
   = [(mk_hit (asc ''b'') 0.9)\<lparr>from_methods := [asc ''vector'', asc ''keyword'']\<rparr>,
      (mk_hit (asc ''a'') 0.5)\<lparr>from_methods := [asc ''vector'']\<rparr>,
      (mk_hit (asc ''c'') 5)\<lparr>from_methods := [asc ''keyword'']\<rparr>]
   \<and> has_vector ((mk_hit (asc ''a'') 0.5)\<lparr>from_methods := [asc ''vector'']\<rparr>)
   \<and> keyword_only ((mk_hit (asc ''c'') 5)\<lparr>from_methods := [asc ''keyword'']\<rparr>)
   \<and> (1::nat) < 2
   \<and> score ((mk_hit (asc ''a'') 0.5)\<lparr>from_methods := [asc ''vector'']\<rparr>)
       \<le> score ((mk_hit (asc ''b'') 0.9)\<lparr>from_methods := [asc ''vector'', asc ''keyword'']\<rparr>)"
  using hybrid_vector_first
    [of 1 "[mk_hit (asc ''a'') 0.5, mk_hit (asc ''b'') 0.9, mk_hit (asc ''a'') 0.7]"
        "[mk_hit (asc ''c'') 5, mk_hit (asc ''b'') 3, mk_hit (asc ''c'') 9]" 2 0 1
        "(mk_hit (asc ''c'') 5)\<lparr>from_methods := [asc ''keyword'']\<rparr>"]
    merge_eval
  by (simp add: has_vector_def keyword_only_def mk_hit_def)

text \<open>
  Claim C4. For any two input lists the merged list has no two entries with the same
  global id, and its ids are those of the two inputs, each exactly once. Vector results
  are inserted first: an entry whose id occurs among the vector results is the first vector
  result with that id, tagged \<open>vector\<close> and, if the id also occurs among the keyword results,
  \<open>keyword\<close> as well; any other entry is the first keyword result with its id, tagged
  \<open>keyword\<close>. So a candidate found in both lists appears once, with both tags.
\<close>
theorem hybrid_merge_no_duplicates:
  "distinct (map global_id (merge_and_deduplicate vs ks))
   \<and> ids_of (merge_and_deduplicate vs ks) = ids_of vs \<union> ids_of ks
   \<and> (g \<in> ids_of vs \<union> ids_of ks \<longrightarrow>
        length (filter (\<lambda>x. global_id x = g) (merge_and_deduplicate vs ks)) = 1)
   \<and> (x \<in> set (merge_and_deduplicate vs ks) \<longrightarrow> global_id x \<in> ids_of vs \<longrightarrow>
        Some x = map_option
          (\<lambda>y. y\<lparr>from_methods :=
                    if global_id x \<in> ids_of ks then [asc ''vector'', asc ''keyword'']
                    else [asc ''vector'']\<rparr>)
          (first_with_id (global_id x) vs))
   \<and> (x \<in> set (merge_and_deduplicate vs ks) \<longrightarrow> global_id x \<notin> ids_of vs \<longrightarrow>
        Some x = map_option (\<lambda>y. y\<lparr>from_methods := [asc ''keyword'']\<rparr>)
          (first_with_id (global_id x) ks))
   \<and> (x \<in> set (merge_and_deduplicate vs ks) \<longrightarrow>
        global_id x \<in> ids_of vs \<longrightarrow> global_id x \<in> ids_of ks \<longrightarrow>
        from_methods x = [asc ''vector'', asc ''keyword''])"
proof (intro conjI impI)
  show "distinct (map global_id (merge_and_deduplicate vs ks))"
    by (rule distinct_merge)
  show "ids_of (merge_and_deduplicate vs ks) = ids_of vs \<union> ids_of ks"
    by (rule ids_merge)
next
  assume "g \<in> ids_of vs \<union> ids_of ks"
  then have "g \<in> global_id ` set (merge_and_deduplicate vs ks)"
    using ids_merge [of vs ks] by (simp add: ids_of_def)
  with distinct_merge [of vs ks]
  show "length (filter (\<lambda>x. global_id x = g) (merge_and_deduplicate vs ks)) = 1"
    by (rule once_if_distinct)
next
  assume "x \<in> set (merge_and_deduplicate vs ks)" and "global_id x \<in> ids_of vs"
  then show "Some x = map_option
          (\<lambda>y. y\<lparr>from_methods :=
                    if global_id x \<in> ids_of ks then [asc ''vector'', asc ''keyword'']
                    else [asc ''vector'']\<rparr>)
          (first_with_id (global_id x) vs)"
    using merged_entry [of x vs ks] by (simp add: set_merge)
next
  assume "x \<in> set (merge_and_deduplicate vs ks)" and "global_id x \<notin> ids_of vs"
  then show "Some x = map_option (\<lambda>y. y\<lparr>from_methods := [asc ''keyword'']\<rparr>)
          (first_with_id (global_id x) ks)"
    using merged_entry [of x vs ks] by (simp add: set_merge)
next
  assume "x \<in> set (merge_and_deduplicate vs ks)"
    and "global_id x \<in> ids_of vs" and "global_id x \<in> ids_of ks"
  then show "from_methods x = [asc ''vector'', asc ''keyword'']"
    using merged_tags [of x vs ks] by (simp add: set_merge)
qed

theorem hybrid_merge_no_duplicates_witness:
  "asc ''b'' \<in> ids_of [mk_hit (asc ''a'') 0.5, mk_hit (asc ''b'') 0.9, mk_hit (asc ''a'') 0.7]
   \<and> asc ''b'' \<in> ids_of [mk_hit (asc ''c'') 5, mk_hit (asc ''b'') 3, mk_hit (asc ''c'') 9]
   \<and> (mk_hit (asc ''b'') 0.9)\<lparr>from_methods := [asc ''vector'', asc ''keyword'']\<rparr>
       \<in> set (merge_and_deduplicate
           [mk_hit (asc ''a'') 0.5, mk_hit (asc ''b'') 0.9, mk_hit (asc ''a'') 0.7]
           [mk_hit (asc ''c'') 5, mk_hit (asc ''b'') 3, mk_hit (asc ''c'') 9])
   \<and> length (filter (\<lambda>x. global_id x = asc ''b'')
        (merge_and_deduplicate
           [mk_hit (asc ''a'') 0.5, mk_hit (asc ''b'') 0.9, mk_hit (asc ''a'') 0.7]
           [mk_hit (asc ''c'') 5, mk_hit (asc ''b'') 3, mk_hit (asc ''c'') 9])) = 1
   \<and> distinct (map global_id (merge_and_deduplicate
           [mk_hit (asc ''a'') 0.5, mk_hit (asc ''b'') 0.9, mk_hit (asc ''a'') 0.7]
           [mk_hit (asc ''c'') 5, mk_hit (asc ''b'') 3, mk_hit (asc ''c'') 9]))"
  using hybrid_merge_no_duplicates
    [of "[mk_hit (asc ''a'') 0.5, mk_hit (asc ''b'') 0.9, mk_hit (asc ''a'') 0.7]"
        "[mk_hit (asc ''c'') 5, mk_hit (asc ''b'') 3, mk_hit (asc ''c'') 9]" "asc ''b''"
        "(mk_hit (asc ''b'') 0.9)\<lparr>from_methods := [asc ''vector'', asc ''keyword'']\<rparr>"]
    merge_eval
  by (simp add: ids_of_def mk_hit_def asc_def)

section \<open>The title selector: proofs\<close>


lemma select_not_title:
  assumes "2 \<le> length cands" and "intent \<noteq> asc ''title''"
  shows "select_best_chunk jl llm info cands all_chunks ctx intent
           = \<lparr>chosen = Some (hd cands), note_left = None, llm_calls = 0\<rparr>"
proof -
  from assms(1) obtain a b rest where "cands = a # b # rest"
    by (cases cands; cases "tl cands") auto
  with assms(2) show ?thesis by (simp add: select_best_chunk_def)
qed


lemma calls_at_most_one:
  "llm_calls (select_best_chunk jl llm info cands all_chunks ctx intent) \<le> 1"
  by (auto simp: select_best_chunk_def Let_def split: list.splits prod.splits option.splits bool.splits)

lemma calls_only_for_title:
  assumes "llm_calls (select_best_chunk jl llm info cands all_chunks ctx intent) \<noteq> 0"
  shows "intent = asc ''title'' \<and> 2 \<le> length cands"
  using assms
  by (auto simp: select_best_chunk_def Let_def split: list.splits if_splits)









lemma search_option_empty: "search_option [] = None"
  by simp






text \<open>
  Claim C10. With at least two candidates and any intent other than title, the selector
  returns the first candidate and calls no model; the model is called (at most once) only
  under title intent with two or more candidates.
\<close>
theorem selector_non_title_first:
  "(2 \<le> length cands \<and> intent \<noteq> asc ''title'' \<longrightarrow>
      select_best_chunk jl llm info cands all_chunks ctx intent
        = \<lparr>chosen = Some (hd cands), note_left = None, llm_calls = 0\<rparr>)
   \<and> (llm_calls (select_best_chunk jl llm info cands all_chunks ctx intent) \<noteq> 0 \<longrightarrow>
        intent = asc ''title'' \<and> 2 \<le> length cands)
   \<and> llm_calls (select_best_chunk jl llm info cands all_chunks ctx intent) \<le> 1"
  using select_not_title [of cands intent jl llm info all_chunks ctx]
    calls_only_for_title [of jl llm info cands all_chunks ctx intent]
    calls_at_most_one [of jl llm info cands all_chunks ctx intent]
  by blast












theorem selector_non_title_first_witness:
  "2 \<le> length [mk_chunk 1 [] [], mk_chunk 2 [] [], mk_chunk 3 [] []]
   \<and> asc ''content'' \<noteq> asc ''title''
   \<and> select_best_chunk demo_json_loads (\<lambda>request. Some (selection_reply (OPTION_MARK @ asc ''2''))) []
        [mk_chunk 1 [] [], mk_chunk 2 [] [], mk_chunk 3 [] []] [] True (asc ''content'')
       = \<lparr>chosen = Some (mk_chunk 1 [] []), note_left = None, llm_calls = 0\<rparr>"
  using selector_non_title_first
    [where cands = "[mk_chunk 1 [] [], mk_chunk 2 [] [], mk_chunk 3 [] []]"
       and intent = "asc ''content''" and jl = demo_json_loads
       and llm = "\<lambda>request. Some (selection_reply (OPTION_MARK @ asc ''2''))"
       and info = "[]" and all_chunks = "[]" and ctx = True]
  by (simp add: asc_def)

section \<open>The orchestrator's failure responses\<close>

lemma catalog_strip: "py_strip CATALOG = CATALOG"
  by (simp add: CATALOG_def py_strip_def py_isspace_def)

text \<open>
  Claim C7 says that every failure response of the orchestrator has the shape of the
  request's intent: flat for title and catalog requests, a list for content and range
  requests, and that no failure surfaces as a raw exception. For a catalog request the
  code does otherwise. \<open>_infer_intent_for_error\<close> maps the catalog marker to \<open>content\<close>, so
  a catalog request that fails the validation (an empty fund code), or whose document
  is not found, is answered in the list shape, whatever the collaborators do. The wrapper
  of the same tool answers a failed catalog request in the flat shape, as the directory
  searcher does, so the shape of a failed catalog request depends on where it fails.
\<close>
theorem catalog_failure_shapes_disagree:
  "search_prospectus determine_file directory_content general_content
     [] (Some CATALOG) False None None None None 0 0
   = Inr (Listed False None (Some FUND_CODE_EMPTY) 0 None [])
   \<and> search_prospectus (\<lambda>code expansion. Inr None) directory_content general_content
     (asc ''999999.SZ'') (Some CATALOG) False None None None None 0 0
   = Inr (Listed False None (Some (not_found_message (asc ''999999.SZ'') False)) 0 None [])
   \<and> build_wrapper_error (guess_intent (Some CATALOG)) message
   = Flat False None None None None None None (Some message)"
proof (intro conjI)
  show "search_prospectus determine_file directory_content general_content
     [] (Some CATALOG) False None None None None 0 0
   = Inr (Listed False None (Some FUND_CODE_EMPTY) 0 None [])"
    by (simp add: search_prospectus_def infer_intent_for_error_def validate_parameters_def
        create_error_result_def asc_def)
  have code: "py_strip (asc ''999999.SZ'') = asc ''999999.SZ''"
    by (simp add: py_strip_def py_isspace_def asc_def)
  show "search_prospectus (\<lambda>code expansion. Inr None) directory_content general_content
     (asc ''999999.SZ'') (Some CATALOG) False None None None None 0 0
   = Inr (Listed False None (Some (not_found_message (asc ''999999.SZ'') False)) 0 None [])"
    by (simp add: search_prospectus_def infer_intent_for_error_def validate_parameters_def
        create_error_result_def code) (simp add: asc_def)
  show "build_wrapper_error (guess_intent (Some CATALOG)) message
   = Flat False None None None None None None (Some message)"
    by (simp add: build_wrapper_error_def guess_intent_def catalog_strip) (simp add: CATALOG_def)
qed

text \<open>
  For the other intents the failure responses of the orchestrator have the shape the
  intent asks for: flat when the search text starts with a title prefix, a list
  otherwise.
\<close>

lemma title_failure_is_flat:
  assumes "s \<noteq> []" and "s \<noteq> CATALOG" and "fst (parse_search_intent s) = asc ''title''"
  shows "create_error_result message (infer_intent_for_error (Some s))
           = Flat False None None None None None None (Some message)"
  using assms by (simp add: infer_intent_for_error_def create_error_result_def)

lemma other_failure_is_listed:
  assumes "fst (parse_search_intent s) \<noteq> asc ''title''"
  shows "create_error_result message (infer_intent_for_error (Some s))
           = Listed False None (Some message) 0 None []"
  using assms by (simp add: infer_intent_for_error_def create_error_result_def asc_def)

text \<open>
  A search text of \<open>None\<close> reaches the first statement of \<open>search_prospectus\<close> before the
  validation that has a message for it, and the exception leaves the function.
\<close>

lemma missing_search_text_raises:
  "search_prospectus determine_file directory_content general_content
     fund None is_expansion start_page end_page start_chunk_id end_chunk_id expand_before expand_after
   = Inl (asc ''TypeError'')"
  by (simp add: search_prospectus_def)

section \<open>The conversation driver: proofs\<close>

lemma corrective_restates_formats:
  "sublist TOOL_CALL_MARK (corrective_prompt errors)
   \<and> sublist FINAL_ANSWER_MARK (corrective_prompt errors)"
proof
  show "sublist TOOL_CALL_MARK (corrective_prompt errors)"
    unfolding corrective_prompt_def by (rule sublist_appendI)
  have "corrective_prompt errors =
          (corrective_head errors @ TOOL_CALL_MARK @ corrective_middle)
          @ FINAL_ANSWER_MARK @ corrective_tail"
    by (simp add: corrective_prompt_def)
  then show "sublist FINAL_ANSWER_MARK (corrective_prompt errors)"
    by (simp only: sublist_appendI)
qed

lemma parse_ignores_reasoning:
  "parse_reasoner_output jl content reasoning = Inr parsed \<Longrightarrow>
     parse_reasoner_output jl content other = Inr (parsed\<lparr>p_reasoning := other\<rparr>)"
  "parse_reasoner_output jl content reasoning = Inl e \<Longrightarrow>
     parse_reasoner_output jl content other = Inl e"
  by (auto simp: parse_reasoner_output_def Let_def split: option.splits decoded.splits if_splits)

lemma malformed_parsed:
  "malformed jl content \<longleftrightarrow>
     (\<exists>parsed. parse_reasoner_output jl content reasoning = Inr parsed
        \<and> (p_type parsed = FORMAT_ERROR \<or> p_type parsed = ERROR))"
proof (cases "parse_reasoner_output jl content reasoning")
  case (Inl e)
  from parse_ignores_reasoning(2) [OF this, of "[]"] Inl show ?thesis
    by (simp add: malformed_def)
next
  case (Inr parsed)
  from parse_ignores_reasoning(1) [OF this, of "[]"] Inr show ?thesis
    by (auto simp: malformed_def split: reply_type.splits)
qed

lemma malformed_round:
  assumes "llm (messages st) = Inr (reasoning, content)"
    and "parse_reasoner_output jl content reasoning = Inr parsed"
    and "p_type parsed = FORMAT_ERROR \<or> p_type parsed = ERROR"
  shows "chat_rounds llm run_tool jl max_rounds (Suc n) k st =
           chat_rounds llm run_tool jl max_rounds n (k + 1)
             ((record_reply k reasoning content parsed st)
                \<lparr>messages := messages st @
                   [(Assistant, content), (User, corrective_prompt (p_errors parsed))]\<rparr>)"
  using assms(3)
  by (elim disjE) (simp_all add: assms(1,2) Let_def record_reply_def)

lemma malformed_rounds:
  assumes "always_malformed llm jl"
  shows "\<exists>st' new. chat_rounds llm run_tool jl max_rounds n k st = Inr (budget_exhausted max_rounds st')
           \<and> messages st' = messages st @ malformed_trace llm jl n (messages st)
           \<and> conversation_rounds st' = conversation_rounds st @ new
           \<and> map rd_round_number new = map (\<lambda>i. k + int i) [0..<n]
           \<and> list_all (\<lambda>r. rd_parsed_type r = FORMAT_ERROR \<or> rd_parsed_type r = ERROR) new
           \<and> tool_calls_made st' = tool_calls_made st"
proof (induction n arbitrary: k st)
  case 0
  show ?case by (intro exI [of _ st] exI [of _ "[]"]) simp
next
  case (Suc n)
  from assms obtain reasoning content
    where reply: "llm (messages st) = Inr (reasoning, content)" and bad: "malformed jl content"
    unfolding always_malformed_def by blast
  from bad obtain parsed where
    parsed: "parse_reasoner_output jl content reasoning = Inr parsed"
    and kind: "p_type parsed = FORMAT_ERROR \<or> p_type parsed = ERROR"
    using malformed_parsed [of jl content reasoning] by blast
  define exchange where
    "exchange = [(Assistant, content), (User, corrective_prompt (p_errors parsed))]"
  define st1 where
    "st1 = (record_reply k reasoning content parsed st)\<lparr>messages := messages st @ exchange\<rparr>"
  define this_round where "this_round = last (conversation_rounds st1)"
  have st1_rounds: "conversation_rounds st1 = conversation_rounds st @ [this_round]"
    and st1_number: "rd_round_number this_round = k"
    and st1_kind: "rd_parsed_type this_round = p_type parsed"
    and st1_messages: "messages st1 = messages st @ exchange"
    and st1_tools: "tool_calls_made st1 = tool_calls_made st"
    by (simp_all add: this_round_def st1_def record_reply_def)
  from Suc.IH [of "k + 1" st1] obtain st' new where
    run: "chat_rounds llm run_tool jl max_rounds n (k + 1) st1 = Inr (budget_exhausted max_rounds st')"
    and msgs: "messages st' = messages st1 @ malformed_trace llm jl n (messages st1)"
    and rounds: "conversation_rounds st' = conversation_rounds st1 @ new"
    and nums: "map rd_round_number new = map (\<lambda>i. k + 1 + int i) [0..<n]"
    and kinds: "list_all (\<lambda>r. rd_parsed_type r = FORMAT_ERROR \<or> rd_parsed_type r = ERROR) new"
    and tools: "tool_calls_made st' = tool_calls_made st1"
    by blast
  have step: "chat_rounds llm run_tool jl max_rounds (Suc n) k st = Inr (budget_exhausted max_rounds st')"
    using malformed_round [where llm = llm and st = st, OF reply parsed kind] run
    by (simp add: st1_def exchange_def)
  have m: "messages st' = messages st @ malformed_trace llm jl (Suc n) (messages st)"
    using msgs reply parsed by (simp add: st1_messages exchange_def Let_def)
  have r: "conversation_rounds st' = conversation_rounds st @ (this_round # new)"
    using rounds by (simp add: st1_rounds)
  have shift: "map (\<lambda>i. k + int i) [0..<Suc n] = k # map (\<lambda>i. k + 1 + int i) [0..<n]"
  proof -
    have "[0..<Suc n] = 0 # map Suc [0..<n]"
      by (simp add: upt_conv_Cons map_Suc_upt del: upt_Suc)
    then show ?thesis by (simp add: comp_def del: upt_Suc)
  qed
  have nrs: "map rd_round_number (this_round # new) = map (\<lambda>i. k + int i) [0..<Suc n]"
    unfolding shift using nums st1_number by simp
  have "rd_parsed_type this_round = FORMAT_ERROR \<or> rd_parsed_type this_round = ERROR"
    using kind by (simp add: st1_kind)
  with kinds have ks: "list_all (\<lambda>r. rd_parsed_type r = FORMAT_ERROR \<or> rd_parsed_type r = ERROR)
                         (this_round # new)"
    by simp
  have t: "tool_calls_made st' = tool_calls_made st"
    using tools by (simp add: st1_tools)
  from step m r nrs ks t show ?case by blast
qed

lemma malformed_trace_shape:
  assumes "always_malformed llm jl"
  shows "length (malformed_trace llm jl n history) = 2 * n
       \<and> (\<forall>i<n. \<exists>content errors.
             malformed_trace llm jl n history ! (2 * i) = (Assistant, content)
           \<and> malformed_trace llm jl n history ! (2 * i + 1) = (User, corrective_prompt errors))"
proof (induction n arbitrary: history)
  case 0
  show ?case by simp
next
  case (Suc n)
  from assms obtain reasoning content
    where reply: "llm history = Inr (reasoning, content)" and bad: "malformed jl content"
    unfolding always_malformed_def by blast
  from bad obtain parsed where
    parsed: "parse_reasoner_output jl content reasoning = Inr parsed"
    using malformed_parsed [of jl content reasoning] by blast
  define errors where "errors = p_errors parsed"
  define rest where
    "rest = malformed_trace llm jl n
              (history @ [(Assistant, content), (User, corrective_prompt errors)])"
  have trace_step: "malformed_trace llm jl (Suc n) history =
                  (Assistant, content) # (User, corrective_prompt errors) # rest"
    using reply parsed by (simp add: Let_def errors_def rest_def)
  have ih: "length rest = 2 * n"
    "\<forall>i<n. \<exists>content errors. rest ! (2 * i) = (Assistant, content)
          \<and> rest ! (2 * i + 1) = (User, corrective_prompt errors)"
    using Suc.IH [of "history @ [(Assistant, content), (User, corrective_prompt errors)]"]
    by (simp_all add: rest_def)
  have "\<exists>content' errors'.
          malformed_trace llm jl (Suc n) history ! (2 * i) = (Assistant, content')
        \<and> malformed_trace llm jl (Suc n) history ! (2 * i + 1) = (User, corrective_prompt errors')"
    if "i < Suc n" for i
  proof (cases i)
    case 0
    then show ?thesis unfolding trace_step by auto
  next
    case (Suc j)
    with that have "j < n" by simp
    with ih(2) obtain c e where "rest ! (2 * j) = (Assistant, c)"
      "rest ! (2 * j + 1) = (User, corrective_prompt e)" by blast
    then show ?thesis unfolding trace_step Suc by auto
  qed
  then show ?case unfolding trace_step by (simp add: ih(1))
qed


lemma upto_from_one: "map (\<lambda>i. 1 + int i) [0..<n] = [1..int n]"
proof (induction n)
  case 0
  show ?case by simp
next
  case (Suc n)
  have "[1..int (Suc n)] = [1..int n] @ [int n + 1]"
    using upto_rec2 [of 1 "int n + 1"] by (simp add: add.commute)
  with Suc show ?case by (simp add: add.commute)
qed

lemma note_tool_outcome_last:
  "note_tool_outcome outcome ok (rounds @ [r]) =
     rounds @ [r\<lparr>rd_tool_execution_result := Some outcome, rd_tool_success := Some ok\<rparr>]"
  by (simp add: note_tool_outcome_def)


text \<open>
  One round of the loop, for any model, tool and decoder. A reply that the parser returns
  from, and that is not a final answer, takes exactly one round whatever its kind: the
  round is recorded under the current index with the reply and its reasoning, the reply
  and one feedback message are appended to the history, and the loop goes on with one
  round less and the next index.
\<close>

lemma record_reply_round:
  "\<exists>r0. conversation_rounds (record_reply k reasoning content parsed st)
           = conversation_rounds st @ [r0]
      \<and> rd_round_number r0 = k \<and> rd_reasoning_content r0 = reasoning
      \<and> rd_response_content r0 = content \<and> rd_parsed_type r0 = p_type parsed"
  by (simp add: record_reply_def)

lemma round_step:
  assumes reply: "llm (messages st) = Inr (reasoning, content)"
    and parsed: "parse_reasoner_output jl content reasoning = Inr parsed"
    and going: "p_type parsed \<noteq> FINAL_ANSWER"
  shows "\<exists>st2 r0.
           chat_rounds llm run_tool jl max_rounds (Suc n) k st
             = chat_rounds llm run_tool jl max_rounds n (k + 1) st2
         \<and> conversation_rounds st2 = conversation_rounds st @ [r0]
         \<and> messages st2 = messages st @ [(Assistant, content), (User, feedback_for run_tool parsed)]
         \<and> rd_round_number r0 = k \<and> rd_reasoning_content r0 = reasoning
         \<and> rd_response_content r0 = content \<and> rd_parsed_type r0 = p_type parsed"
proof -
  define st1 where "st1 = record_reply k reasoning content parsed st"
  from record_reply_round [of k reasoning content parsed st] obtain r0 where
    r0: "conversation_rounds st1 = conversation_rounds st @ [r0]"
      "rd_round_number r0 = k" "rd_reasoning_content r0 = reasoning"
      "rd_response_content r0 = content" "rd_parsed_type r0 = p_type parsed"
    unfolding st1_def by blast
  have st1_messages: "messages st1 = messages st @ [(Assistant, content)]"
    by (simp add: st1_def record_reply_def)
  show ?thesis
  proof (cases "p_type parsed")
    case TOOL_CALL
    show ?thesis
    proof (cases "run_tool (p_tool_call parsed)")
      case (Inl e)
      define noted where
        "noted = r0\<lparr>rd_tool_execution_result := Some (TOOL_CALL_FAILED @ e),
                    rd_tool_success := Some False\<rparr>"
      define st2 where
        "st2 = st1\<lparr>tool_calls_made := tool_calls_made st1 @
                       [\<lparr>tc_round = k, tc_params = p_tool_call parsed,
                         tc_result = None, tc_success = False, tc_error = Some e\<rparr>],
                    conversation_rounds :=
                       note_tool_outcome (TOOL_CALL_FAILED @ e) False (conversation_rounds st1),
                    messages := messages st1 @ [(User, retry_feedback (TOOL_CALL_FAILED @ e))]\<rparr>"
      have run: "chat_rounds llm run_tool jl max_rounds (Suc n) k st
                   = chat_rounds llm run_tool jl max_rounds n (k + 1) st2"
        using reply parsed TOOL_CALL Inl by (simp add: Let_def st1_def st2_def)
      have "conversation_rounds st2 = conversation_rounds st @ [noted]"
        by (simp add: st2_def r0(1) note_tool_outcome_last noted_def)
      moreover have "messages st2 = messages st @ [(Assistant, content), (User, feedback_for run_tool parsed)]"
        by (simp add: st2_def st1_messages feedback_for_def TOOL_CALL Inl)
      moreover have "rd_round_number noted = k \<and> rd_reasoning_content noted = reasoning
         \<and> rd_response_content noted = content \<and> rd_parsed_type noted = p_type parsed"
        using r0 by (simp add: noted_def)
      ultimately show ?thesis using run by blast
    next
      case (Inr tool_response)
      define noted where
        "noted = r0\<lparr>rd_tool_execution_result := Some tool_response, rd_tool_success := Some True\<rparr>"
      define st2 where
        "st2 = st1\<lparr>tool_calls_made := tool_calls_made st1 @
                       [\<lparr>tc_round = k, tc_params = p_tool_call parsed,
                         tc_result = Some tool_response, tc_success = True, tc_error = None\<rparr>],
                    conversation_rounds :=
                       note_tool_outcome tool_response True (conversation_rounds st1),
                    messages := messages st1 @ [(User, tool_feedback tool_response)]\<rparr>"
      have run: "chat_rounds llm run_tool jl max_rounds (Suc n) k st
                   = chat_rounds llm run_tool jl max_rounds n (k + 1) st2"
        using reply parsed TOOL_CALL Inr by (simp add: Let_def st1_def st2_def)
      have "conversation_rounds st2 = conversation_rounds st @ [noted]"
        by (simp add: st2_def r0(1) note_tool_outcome_last noted_def)
      moreover have "messages st2 = messages st @ [(Assistant, content), (User, feedback_for run_tool parsed)]"
        by (simp add: st2_def st1_messages feedback_for_def TOOL_CALL Inr)
      moreover have "rd_round_number noted = k \<and> rd_reasoning_content noted = reasoning
         \<and> rd_response_content noted = content \<and> rd_parsed_type noted = p_type parsed"
        using r0 by (simp add: noted_def)
      ultimately show ?thesis using run by blast
    qed
  next
    case FINAL_ANSWER
    with going show ?thesis by simp
  next
    case FORMAT_ERROR
    define st2 where
      "st2 = st1\<lparr>messages := messages st1 @ [(User, corrective_prompt (p_errors parsed))]\<rparr>"
    have run: "chat_rounds llm run_tool jl max_rounds (Suc n) k st
                 = chat_rounds llm run_tool jl max_rounds n (k + 1) st2"
      using reply parsed FORMAT_ERROR by (simp add: Let_def st1_def st2_def)
    have "conversation_rounds st2 = conversation_rounds st @ [r0]"
      by (simp add: st2_def r0(1))
    moreover have "messages st2 = messages st @ [(Assistant, content), (User, feedback_for run_tool parsed)]"
      by (simp add: st2_def st1_messages feedback_for_def FORMAT_ERROR)
    ultimately show ?thesis using run r0 by blast
  next
    case ERROR
    define st2 where
      "st2 = st1\<lparr>messages := messages st1 @ [(User, corrective_prompt (p_errors parsed))]\<rparr>"
    have run: "chat_rounds llm run_tool jl max_rounds (Suc n) k st
                 = chat_rounds llm run_tool jl max_rounds n (k + 1) st2"
      using reply parsed ERROR by (simp add: Let_def st1_def st2_def)
    have "conversation_rounds st2 = conversation_rounds st @ [r0]"
      by (simp add: st2_def r0(1))
    moreover have "messages st2 = messages st @ [(Assistant, content), (User, feedback_for run_tool parsed)]"
      by (simp add: st2_def st1_messages feedback_for_def ERROR)
    ultimately show ?thesis using run r0 by blast
  qed
qed

lemma final_step:
  assumes reply: "llm (messages st) = Inr (reasoning, content)"
    and parsed: "parse_reasoner_output jl content reasoning = Inr parsed"
    and final: "p_type parsed = FINAL_ANSWER"
  shows "\<exists>r r0. chat_rounds llm run_tool jl max_rounds (Suc n) k st = Inr r
         \<and> res_success r \<and> res_total_rounds r = k
         \<and> res_conversation_rounds r = conversation_rounds st @ [r0]
         \<and> res_history r = messages st @ [(Assistant, content)]
         \<and> rd_round_number r0 = k \<and> rd_reasoning_content r0 = reasoning
         \<and> rd_response_content r0 = content \<and> rd_parsed_type r0 = p_type parsed"
  using reply parsed final
  by (simp add: Let_def final_answer_given_def record_reply_def)

lemma shift_upt: "map (\<lambda>i. k + int i) [0..<Suc m] = k # map (\<lambda>i. k + 1 + int i) [0..<m]"
proof -
  have "[0..<Suc m] = 0 # map Suc [0..<m]"
    by (simp add: upt_conv_Cons map_Suc_upt del: upt_Suc)
  then show ?thesis by (simp add: comp_def del: upt_Suc)
qed

text \<open>
  The account of a whole run that returns: the rounds it recorded are numbered
  consecutively from the first index, are no more than the rounds that were left, and are
  the replies of the model, one round for each: the \<open>i\<close>-th new round holds the reply (and
  the reasoning) the model gave to the history as the earlier rounds left it, two messages
  longer for each of them, and the replies added to the history are those of the rounds.
  The round count returned is the number of rounds recorded, unless the budget ran out, in
  which case it is the budget and all the rounds that were left have been recorded.
\<close>

lemma rounds_account:
  assumes "chat_rounds llm run_tool jl max_rounds n k st = Inr r"
  shows "\<exists>new added.
           res_conversation_rounds r = conversation_rounds st @ new
         \<and> res_history r = messages st @ added
         \<and> map rd_round_number new = map (\<lambda>i. k + int i) [0..<length new]
         \<and> length new \<le> n
         \<and> assistant_replies added = map rd_response_content new
         \<and> (\<forall>i<length new. llm (messages st @ take (2 * i) added)
                = Inr (rd_reasoning_content (new ! i), rd_response_content (new ! i)))
         \<and> (res_total_rounds r = k - 1 + int (length new)
              \<or> res_total_rounds r = max_rounds \<and> length new = n)"
  using assms
proof (induction n arbitrary: k st)
  case 0
  then have "r = budget_exhausted max_rounds st" by simp
  then show ?case
    by (intro exI [of _ "[]"]) (simp add: budget_exhausted_def assistant_replies_def)
next
  case (Suc n)
  show ?case
  proof (cases "llm (messages st)")
    case (Inl e)
    with Suc.prems have "r = model_call_failed e k st" by simp
    then show ?thesis
      by (intro exI [of _ "[]"]) (simp add: model_call_failed_def assistant_replies_def)
  next
    case (Inr reply)
    obtain reasoning content where reply: "llm (messages st) = Inr (reasoning, content)"
      using Inr by (cases reply) simp
    show ?thesis
    proof (cases "parse_reasoner_output jl content reasoning")
      case (Inl e)
      with Suc.prems reply show ?thesis by simp
    next
      case (Inr parsed)
      show ?thesis
      proof (cases "p_type parsed = FINAL_ANSWER")
        case True
        from final_step [where llm = llm and st = st and run_tool = run_tool and max_rounds = max_rounds
            and n = n and k = k, OF reply Inr True] Suc.prems
        obtain r0 where
          fin: "res_total_rounds r = k" "res_conversation_rounds r = conversation_rounds st @ [r0]"
            "res_history r = messages st @ [(Assistant, content)]"
            "rd_round_number r0 = k" "rd_reasoning_content r0 = reasoning"
            "rd_response_content r0 = content"
          by auto
        show ?thesis
          by (intro exI [of _ "[r0]"] exI [of _ "[(Assistant, content)]"])
            (simp add: fin assistant_replies_def reply)
      next
        case False
        from round_step [where llm = llm and st = st and run_tool = run_tool and max_rounds = max_rounds
            and n = n and k = k, OF reply Inr False] obtain st2 r0 where
          run: "chat_rounds llm run_tool jl max_rounds (Suc n) k st
                  = chat_rounds llm run_tool jl max_rounds n (k + 1) st2"
          and rounds2: "conversation_rounds st2 = conversation_rounds st @ [r0]"
          and messages2: "messages st2
                  = messages st @ [(Assistant, content), (User, feedback_for run_tool parsed)]"
          and r0: "rd_round_number r0 = k" "rd_reasoning_content r0 = reasoning"
            "rd_response_content r0 = content"
          by blast
        from run Suc.prems have "chat_rounds llm run_tool jl max_rounds n (k + 1) st2 = Inr r"
          by simp
        from Suc.IH [OF this] obtain new added where
          ih: "res_conversation_rounds r = conversation_rounds st2 @ new"
            "res_history r = messages st2 @ added"
            "map rd_round_number new = map (\<lambda>i. k + 1 + int i) [0..<length new]"
            "length new \<le> n"
            "assistant_replies added = map rd_response_content new"
            "\<forall>i<length new. llm (messages st2 @ take (2 * i) added)
                = Inr (rd_reasoning_content (new ! i), rd_response_content (new ! i))"
            "res_total_rounds r = k + 1 - 1 + int (length new)
              \<or> res_total_rounds r = max_rounds \<and> length new = n"
          by blast
        define exchange where
          "exchange = [(Assistant, content), (User, feedback_for run_tool parsed)]"
        have a: "res_conversation_rounds r = conversation_rounds st @ (r0 # new)"
          using ih(1) rounds2 by simp
        have b: "res_history r = messages st @ (exchange @ added)"
          using ih(2) messages2 by (simp add: exchange_def)
        have c: "map rd_round_number (r0 # new) = map (\<lambda>i. k + int i) [0..<length (r0 # new)]"
          using ih(3) r0(1) shift_upt [of k "length new"] by simp
        have d: "length (r0 # new) \<le> Suc n" using ih(4) by simp
        have e: "assistant_replies (exchange @ added) = map rd_response_content (r0 # new)"
          using ih(5) r0(3) by (simp add: assistant_replies_def exchange_def)
        have f: "llm (messages st @ take (2 * i) (exchange @ added))
                = Inr (rd_reasoning_content ((r0 # new) ! i), rd_response_content ((r0 # new) ! i))"
          if "i < length (r0 # new)" for i
        proof (cases i)
          case 0
          then show ?thesis using reply r0 by simp
        next
          case (Suc j)
          with that have j: "j < length new" by simp
          have "take (2 * Suc j) (exchange @ added) = exchange @ take (2 * j) added"
            by (simp add: exchange_def)
          then have "messages st @ take (2 * i) (exchange @ added)
                       = messages st2 @ take (2 * j) added"
            using Suc messages2 by (simp add: exchange_def)
          then show ?thesis using ih(6) j Suc by simp
        qed
        have g: "res_total_rounds r = k - 1 + int (length (r0 # new))
              \<or> res_total_rounds r = max_rounds \<and> length (r0 # new) = Suc n"
          using ih(7) by auto
        from a b c d e f g show ?thesis by blast
      qed
    qed
  qed
qed

lemma every_reply_takes_one_round:
  assumes "chat_with_deepseek_reasoner llm run_tool jl enhanced_system_prompt user_question max_rounds
             = Inr r"
  shows "map rd_round_number (res_conversation_rounds r)
           = [1..int (length (res_conversation_rounds r))]"
    and "length (res_conversation_rounds r) \<le> nat max_rounds"
    and "assistant_replies (res_history r) = map rd_response_content (res_conversation_rounds r)"
    and "\<forall>i<length (res_conversation_rounds r).
           llm (take (2 + 2 * i) (res_history r))
             = Inr (rd_reasoning_content (res_conversation_rounds r ! i),
                    rd_response_content (res_conversation_rounds r ! i))"
    and "0 \<le> max_rounds \<Longrightarrow> res_total_rounds r = int (length (res_conversation_rounds r))"
proof -
  define start where "start = [(System, enhanced_system_prompt), (User, user_question)]"
  from rounds_account [OF assms [unfolded chat_with_deepseek_reasoner_def]]
  obtain new added where
    acc: "res_conversation_rounds r = new"
      "res_history r = start @ added"
      "map rd_round_number new = map (\<lambda>i. 1 + int i) [0..<length new]"
      "length new \<le> nat max_rounds"
      "assistant_replies added = map rd_response_content new"
      "\<forall>i<length new. llm (start @ take (2 * i) added)
                = Inr (rd_reasoning_content (new ! i), rd_response_content (new ! i))"
      "res_total_rounds r = 1 - 1 + int (length new)
              \<or> res_total_rounds r = max_rounds \<and> length new = nat max_rounds"
    unfolding start_def by auto
  show "map rd_round_number (res_conversation_rounds r)
           = [1..int (length (res_conversation_rounds r))]"
    using acc(1,3) by (simp add: upto_from_one)
  show "length (res_conversation_rounds r) \<le> nat max_rounds"
    using acc(1,4) by simp
  show "assistant_replies (res_history r) = map rd_response_content (res_conversation_rounds r)"
    using acc(1,2,5) by (simp add: assistant_replies_def start_def)
  have "take (2 + 2 * i) (start @ added) = start @ take (2 * i) added" for i
    by (simp add: start_def)
  then show "\<forall>i<length (res_conversation_rounds r).
           llm (take (2 + 2 * i) (res_history r))
             = Inr (rd_reasoning_content (res_conversation_rounds r ! i),
                    rd_response_content (res_conversation_rounds r ! i))"
    using acc(1,2,6) by simp
  show "res_total_rounds r = int (length (res_conversation_rounds r))" if "0 \<le> max_rounds"
    using acc(1,7) that by auto
qed

lemma malformed_cases:
  "malformed jl content \<longleftrightarrow>
     (case search_tool_call content of
        Some block \<Rightarrow>
          (case jl block of
             Decoded tool_call \<Rightarrow> missing_params tool_call \<noteq> []
           | JSONDecodeError e \<Rightarrow> True
           | OtherError e \<Rightarrow> False)
      | None \<Rightarrow> (case search_final_answer content of Some rest \<Rightarrow> py_strip rest = [] | None \<Rightarrow> True))"
  by (simp add: malformed_def parse_reasoner_output_def Let_def split: option.splits decoded.splits)

text \<open>
  What the driver does when every reply of the model is one the parser handles as
  malformed. For a round budget \<open>max_rounds \<ge> 0\<close> the conversation ends in failure after
  exactly \<open>max_rounds\<close> rounds, numbered 1 to \<open>max_rounds\<close>, with the sentinel answer, no tool
  call, and a history in which every reply of the model is followed by the corrective
  prompt, which restates both block markers.
\<close>

lemma malformed_replies_exhaust_budget:
  assumes "always_malformed llm jl" and "0 \<le> max_rounds"
  shows "\<exists>r. chat_with_deepseek_reasoner llm run_tool jl enhanced_system_prompt user_question max_rounds
               = Inr r
          \<and> (let start = [(System, enhanced_system_prompt), (User, user_question)];
                  trace = malformed_trace llm jl (nat max_rounds) start
              in \<not> res_success r
               \<and> res_final_answer r = BUDGET_ANSWER
               \<and> res_error r = Some (MAX_ROUNDS_REACHED @ str_int max_rounds)
               \<and> res_total_rounds r = max_rounds
               \<and> int (length (res_conversation_rounds r)) = max_rounds
               \<and> map rd_round_number (res_conversation_rounds r) = [1..max_rounds]
               \<and> list_all (\<lambda>x. rd_parsed_type x = FORMAT_ERROR \<or> rd_parsed_type x = ERROR)
                    (res_conversation_rounds r)
               \<and> res_tool_calls r = []
               \<and> res_history r = start @ trace
               \<and> length trace = 2 * nat max_rounds
               \<and> (\<forall>i<nat max_rounds. \<exists>content errors.
                      trace ! (2 * i) = (Assistant, content)
                    \<and> trace ! (2 * i + 1) = (User, corrective_prompt errors)
                    \<and> sublist TOOL_CALL_MARK (corrective_prompt errors)
                    \<and> sublist FINAL_ANSWER_MARK (corrective_prompt errors)))"
proof -
  define start where "start = [(System, enhanced_system_prompt), (User, user_question)]"
  define st0 where
    "st0 = \<lparr>messages = start, conversation_rounds = [], all_reasoning = [], tool_calls_made = []\<rparr>"
  define trace where "trace = malformed_trace llm jl (nat max_rounds) start"
  have r_run: "chat_with_deepseek_reasoner llm run_tool jl enhanced_system_prompt user_question max_rounds
                 = chat_rounds llm run_tool jl max_rounds (nat max_rounds) 1 st0"
    by (simp add: chat_with_deepseek_reasoner_def st0_def start_def)
  from malformed_rounds [OF assms(1), of run_tool max_rounds "nat max_rounds" 1 st0]
  obtain st' new where
    run: "chat_rounds llm run_tool jl max_rounds (nat max_rounds) 1 st0
            = Inr (budget_exhausted max_rounds st')"
    and msgs: "messages st' = start @ trace"
    and rounds: "conversation_rounds st' = new"
    and nums: "map rd_round_number new = map (\<lambda>i. 1 + int i) [0..<nat max_rounds]"
    and kinds: "list_all (\<lambda>r. rd_parsed_type r = FORMAT_ERROR \<or> rd_parsed_type r = ERROR) new"
    and tools: "tool_calls_made st' = []"
    unfolding trace_def by (auto simp: st0_def)
  define r where "r = budget_exhausted max_rounds st'"
  have len: "length new = nat max_rounds"
    using arg_cong [OF nums, of length] by simp
  have numbered: "map rd_round_number new = [1..max_rounds]"
    using nums assms(2) by (simp add: upto_from_one)
  note shape = malformed_trace_shape [OF assms(1), of "nat max_rounds" start, folded trace_def]
  have feedback: "\<forall>i<nat max_rounds. \<exists>content errors.
                 trace ! (2 * i) = (Assistant, content)
               \<and> trace ! (2 * i + 1) = (User, corrective_prompt errors)
               \<and> sublist TOOL_CALL_MARK (corrective_prompt errors)
               \<and> sublist FINAL_ANSWER_MARK (corrective_prompt errors)"
    using shape corrective_restates_formats by blast
  have "\<not> res_success r" "res_final_answer r = BUDGET_ANSWER"
    "res_error r = Some (MAX_ROUNDS_REACHED @ str_int max_rounds)"
    "res_total_rounds r = max_rounds"
    "res_conversation_rounds r = new" "res_tool_calls r = []" "res_history r = start @ trace"
    using rounds tools msgs by (simp_all add: r_def budget_exhausted_def)
  then have "let start = [(System, enhanced_system_prompt), (User, user_question)];
                  trace = malformed_trace llm jl (nat max_rounds) start
              in \<not> res_success r
               \<and> res_final_answer r = BUDGET_ANSWER
               \<and> res_error r = Some (MAX_ROUNDS_REACHED @ str_int max_rounds)
               \<and> res_total_rounds r = max_rounds
               \<and> int (length (res_conversation_rounds r)) = max_rounds
               \<and> map rd_round_number (res_conversation_rounds r) = [1..max_rounds]
               \<and> list_all (\<lambda>x. rd_parsed_type x = FORMAT_ERROR \<or> rd_parsed_type x = ERROR)
                    (res_conversation_rounds r)
               \<and> res_tool_calls r = []
               \<and> res_history r = start @ trace
               \<and> length trace = 2 * nat max_rounds
               \<and> (\<forall>i<nat max_rounds. \<exists>content errors.
                      trace ! (2 * i) = (Assistant, content)
                    \<and> trace ! (2 * i + 1) = (User, corrective_prompt errors)
                    \<and> sublist TOOL_CALL_MARK (corrective_prompt errors)
                    \<and> sublist FINAL_ANSWER_MARK (corrective_prompt errors))"
    unfolding Let_def start_def [symmetric] trace_def [symmetric]
    using len numbered kinds shape feedback assms(2) by simp
  moreover have "chat_with_deepseek_reasoner llm run_tool jl enhanced_system_prompt user_question
                   max_rounds = Inr r"
    using r_run run by (simp add: r_def)
  ultimately show ?thesis by blast
qed

lemma hello_malformed:
  "parse_reasoner_output (\<lambda>s. JSONDecodeError []) (asc ''hello'') reasoning =
     Inr \<lparr>p_type = FORMAT_ERROR, p_analysis = [], p_tool_call = None, p_final_answer = None,
          p_reasoning = reasoning, p_errors = [NO_VALID_FORMAT]\<rparr>"
  by (simp add: parse_reasoner_output_def asc_def TOOL_CALL_MARK_def FINAL_ANSWER_MARK_def
      ROUND_ANALYSIS_def FINAL_ANALYSIS_def Let_def)

lemma hello_always_malformed:
  "always_malformed (\<lambda>history. Inr ([], asc ''hello'')) (\<lambda>s. JSONDecodeError [])"
  by (simp add: always_malformed_def malformed_def hello_malformed)

lemma hello_exhausts_budget:
  "\<exists>r. chat_with_deepseek_reasoner (\<lambda>history. Inr ([], asc ''hello''))
          (\<lambda>params. Inr []) (\<lambda>s. JSONDecodeError []) (asc ''system'') (asc ''question'') 2 = Inr r
     \<and> \<not> res_success r
     \<and> res_final_answer r = BUDGET_ANSWER
     \<and> res_total_rounds r = 2
     \<and> map rd_round_number (res_conversation_rounds r) = [1, 2]
     \<and> res_history r
         = [(System, asc ''system''), (User, asc ''question''),
            (Assistant, asc ''hello''), (User, corrective_prompt [NO_VALID_FORMAT]),
            (Assistant, asc ''hello''), (User, corrective_prompt [NO_VALID_FORMAT])]"
proof -
  have budget: "(0::int) \<le> 2" by simp
  have upto: "[1..(2::int)] = [1, 2]" by (simp add: upto.simps)
  have trace: "malformed_trace (\<lambda>history. Inr ([], asc ''hello'')) (\<lambda>s. JSONDecodeError []) 2
                 [(System, asc ''system''), (User, asc ''question'')]
               = [(Assistant, asc ''hello''), (User, corrective_prompt [NO_VALID_FORMAT]),
                  (Assistant, asc ''hello''), (User, corrective_prompt [NO_VALID_FORMAT])]"
    by (simp add: numeral_2_eq_2 hello_malformed)
  from malformed_replies_exhaust_budget [OF hello_always_malformed budget,
    where run_tool = "\<lambda>params. Inr []" and enhanced_system_prompt = "asc ''system''"
      and user_question = "asc ''question''", unfolded Let_def]
  obtain r where
    "chat_with_deepseek_reasoner (\<lambda>history. Inr ([], asc ''hello''))
          (\<lambda>params. Inr []) (\<lambda>s. JSONDecodeError []) (asc ''system'') (asc ''question'') 2 = Inr r"
    "\<not> res_success r" "res_final_answer r = BUDGET_ANSWER" "res_total_rounds r = 2"
    "map rd_round_number (res_conversation_rounds r) = [1..2]"
    "res_history r = [(System, asc ''system''), (User, asc ''question'')]
        @ malformed_trace (\<lambda>history. Inr ([], asc ''hello'')) (\<lambda>s. JSONDecodeError []) (nat 2)
            [(System, asc ''system''), (User, asc ''question'')]"
    by blast
  then show ?thesis by (intro exI [of _ r]) (simp add: upto trace)
qed

text \<open>The action block of \<open>long_integer_action\<close> is what the pattern of the parser finds.\<close>

lemma no_final_marker:
  "70 \<notin> set s \<Longrightarrow> search_final_answer s = None"
  by (induction s) (auto simp: FINAL_ANSWER_MARK_def asc_def)

lemma long_integer_no_final_answer:
  "search_final_answer (long_integer_action digits) = None"
  by (rule no_final_marker)
    (auto simp: long_integer_action_def long_integer_block_def TOOL_CALL_MARK_def asc_def)

lemma long_integer_tool_call:
  "search_tool_call (long_integer_action digits) = Some (long_integer_block digits)"
proof -
  have inner: "takeWhile (\<lambda>c. c \<noteq> 125) ([34, 110, 34, 58, 32] @ replicate digits 49 @ [125])
                 = [34, 110, 34, 58, 32] @ replicate digits (49::nat)"
  proof -
    have "takeWhile (\<lambda>c. c \<noteq> 125) (([34, 110, 34, 58, 32] @ replicate digits (49::nat)) @ [125])
            = ([34, 110, 34, 58, 32] @ replicate digits 49) @ takeWhile (\<lambda>c. c \<noteq> 125) [125]"
      by (rule takeWhile_append2) auto
    then show ?thesis by simp
  qed
  have block: "brace_block_at (long_integer_block digits) = Some (long_integer_block digits)"
    unfolding brace_block_at_def long_integer_block_def using inner by simp
  have found: "search_tool_call (TOOL_CALL_MARK @ [32] @ rest) = Some b"
    if "brace_block_at (dropWhile py_isspace ([32] @ rest)) = Some b" for rest b
    using that by (simp add: TOOL_CALL_MARK_def asc_def)
  have spaces: "dropWhile py_isspace ([32] @ long_integer_block digits) = long_integer_block digits"
    by (simp add: py_isspace_def long_integer_block_def)
  show ?thesis
    unfolding long_integer_action_def by (rule found) (simp only: spaces block)
qed

lemma decoder_exception_leaves_parser:
  assumes "search_tool_call content = Some block" and "jl block = OtherError e"
  shows "parse_reasoner_output jl content reasoning = Inl e"
  using assms by (simp add: parse_reasoner_output_def Let_def)

lemma parser_exception_leaves_driver:
  assumes "llm (messages st) = Inr (reasoning, content)"
    and "parse_reasoner_output jl content reasoning = Inl e"
  shows "chat_rounds llm run_tool jl max_rounds (Suc n) k st = Inl e"
  using assms by simp

text \<open>
  The same reply with a decoder that rejects the block, or decodes it, is handled as
  malformed: the handler of the parser and the check of the required parameters cover it.
\<close>

lemma long_integer_handled:
  assumes "jl (long_integer_block digits) = JSONDecodeError e
           \<or> jl (long_integer_block digits) = Decoded [(asc ''n'', v)]"
  shows "always_malformed (\<lambda>history. Inr (reasoning, long_integer_action digits)) jl"
  using assms
  by (auto simp: always_malformed_def malformed_cases long_integer_tool_call missing_params_def
      asc_def)

text \<open>
  Claim C6 says that when every reply of the model is malformed (neither a well-formed
  action block nor a final-answer block) the conversation ends in failure after exactly
  \<open>max_rounds\<close> rounds with the sentinel answer, every malformed reply being answered with
  the corrective feedback. The code does so for the replies its parser returns from, and
  does otherwise for a malformed reply on which the decoder raises an exception that is
  not \<open>JSONDecodeError\<close>. The reply \<open>long_integer_action digits\<close> is an action block and
  nothing else: it holds no final-answer marker, and the object of its block has the one
  member \<open>n\<close>, so both required parameters are missing whatever value the member has. When
  the integer literal has more digits than the interpreter converts (4301 digits with the
  default limit), \<open>json.loads\<close> raises \<open>ValueError\<close>; the handler of the parser catches
  \<open>JSONDecodeError\<close> only, and the loop calls the parser outside every handler. So the
  exception leaves the driver in the first round, for every round budget of at least one
  round: no result is returned, hence no failure with the sentinel answer, and no
  corrective feedback is given.
\<close>
theorem driver_decoder_exception_escapes:
  assumes "llm [(System, enhanced_system_prompt), (User, user_question)]
             = Inr (reasoning, long_integer_action digits)"
    and "json_loads (long_integer_block digits) = OtherError e"
    and "1 \<le> max_rounds"
  shows "search_tool_call (long_integer_action digits) = Some (long_integer_block digits)
       \<and> search_final_answer (long_integer_action digits) = None
       \<and> missing_params [(asc ''n'', v)] = [asc ''fund_code'', asc ''search_info'']
       \<and> parse_reasoner_output json_loads (long_integer_action digits) reasoning = Inl e
       \<and> chat_with_deepseek_reasoner llm run_tool json_loads enhanced_system_prompt user_question
            max_rounds = Inl e
       \<and> (\<forall>r. chat_with_deepseek_reasoner llm run_tool json_loads enhanced_system_prompt
                 user_question max_rounds \<noteq> Inr r)"
proof -
  have parsed: "parse_reasoner_output json_loads (long_integer_action digits) reasoning = Inl e"
    by (rule decoder_exception_leaves_parser [where jl = json_loads, OF long_integer_tool_call assms(2)])
  from assms(3) obtain n where budget: "nat max_rounds = Suc n"
    by (cases "nat max_rounds") auto
  have raised: "chat_with_deepseek_reasoner llm run_tool json_loads enhanced_system_prompt
                  user_question max_rounds = Inl e"
    unfolding chat_with_deepseek_reasoner_def budget
    by (rule parser_exception_leaves_driver [where reasoning = reasoning
          and content = "long_integer_action digits"])
       (simp_all add: assms(1) parsed)
  have missing: "missing_params [(asc ''n'', v)] = [asc ''fund_code'', asc ''search_info'']"
    by (simp add: missing_params_def asc_def)
  from long_integer_tool_call long_integer_no_final_answer missing parsed raised
  show ?thesis by simp
qed

theorem driver_decoder_exception_escapes_witness:
  "(\<lambda>history. Inr ([], long_integer_action 4301)) [(System, asc ''system''), (User, asc ''question'')]
     = (Inr ([], long_integer_action 4301) :: pystr + pystr \<times> pystr)
   \<and> (if 4300 < length (long_integer_block 4301)
       then OtherError (asc ''Exceeds the limit (4300 digits) for integer string conversion'')
       else JSONDecodeError [])
      = OtherError (asc ''Exceeds the limit (4300 digits) for integer string conversion'')
   \<and> (1::int) \<le> 20
   \<and> chat_with_deepseek_reasoner (\<lambda>history. Inr ([], long_integer_action 4301))
        (\<lambda>params. Inr [])
        (\<lambda>block. if 4300 < length block
                  then OtherError (asc ''Exceeds the limit (4300 digits) for integer string conversion'')
                  else JSONDecodeError [])
        (asc ''system'') (asc ''question'') 20
      = Inl (asc ''Exceeds the limit (4300 digits) for integer string conversion'')"
proof -
  have long: "4300 < length (long_integer_block 4301)"
    by (simp add: long_integer_block_def)
  have budget: "(1::int) \<le> 20" by simp
  from driver_decoder_exception_escapes
    [where llm = "\<lambda>history. Inr ([], long_integer_action 4301)"
       and json_loads = "\<lambda>block. if 4300 < length block
                  then OtherError (asc ''Exceeds the limit (4300 digits) for integer string conversion'')
                  else JSONDecodeError []"
       and enhanced_system_prompt = "asc ''system''" and user_question = "asc ''question''"
       and reasoning = "[]" and digits = 4301 and max_rounds = 20
       and e = "asc ''Exceeds the limit (4300 digits) for integer string conversion''"
       and run_tool = "\<lambda>params. Inr []", OF _ _ budget]
  show ?thesis using long by simp
qed

end
